theory Spec2Isabelle
  imports Complex_Main
begin

section \<open>Numbers\<close>

text \<open>
  The program computes on NumPy and pandas 64-bit floats. A number is a \<^typ>\<open>real\<close>; a
  double is a real that the rounding \<open>rnd\<close> below leaves as it is. A product, a quotient
  or a sum that the detector or the clustering takes is the exact result rounded by
  \<open>rnd\<close>, as IEEE 754 prescribes for each single operation, and a literal such as
  \<open>1.005\<close> is \<open>rnd 1.005\<close>. The sum of the volume column is exact, as it is for the whole
  numbers of an integer column; \<open>_calculate_vwap\<close> and the scorer keep exact arithmetic
  throughout. What the control flow can observe beyond that is kept too: a computed
  value is of type \<open>fl\<close>, a finite number, one of the two infinities, or NaN; NumPy
  divides by zero without raising; every comparison with NaN is false.
\<close>

datatype fl = Fin real | PInf | MInf | NaN

fun fl_neg :: "fl \<Rightarrow> fl" where
  "fl_neg (Fin x) = Fin (- x)"
| "fl_neg PInf = MInf"
| "fl_neg MInf = PInf"
| "fl_neg NaN = NaN"

fun fl_add :: "fl \<Rightarrow> fl \<Rightarrow> fl" where
  "fl_add NaN b = NaN"
| "fl_add a NaN = NaN"
| "fl_add (Fin x) (Fin y) = Fin (x + y)"
| "fl_add PInf MInf = NaN"
| "fl_add MInf PInf = NaN"
| "fl_add PInf b = PInf"
| "fl_add MInf b = MInf"
| "fl_add (Fin x) b = b"

definition fl_sub :: "fl \<Rightarrow> fl \<Rightarrow> fl" where
  "fl_sub a b = fl_add a (fl_neg b)"

text \<open>The sign of a value: \<open>-1\<close>, \<open>0\<close> or \<open>1\<close>; NaN has none and is handled before.\<close>

fun fl_sgn :: "fl \<Rightarrow> real" where
  "fl_sgn (Fin x) = sgn x"
| "fl_sgn PInf = 1"
| "fl_sgn MInf = - 1"
| "fl_sgn NaN = 0"

definition inf_of_sign :: "real \<Rightarrow> fl" where
  "inf_of_sign s = (if s = 0 then NaN else if 0 < s then PInf else MInf)"

fun fl_mul :: "fl \<Rightarrow> fl \<Rightarrow> fl" where
  "fl_mul NaN b = NaN"
| "fl_mul a NaN = NaN"
| "fl_mul (Fin x) (Fin y) = Fin (x * y)"
| "fl_mul a b = inf_of_sign (fl_sgn a * fl_sgn b)"

fun fl_div :: "fl \<Rightarrow> fl \<Rightarrow> fl" where
  "fl_div NaN b = NaN"
| "fl_div a NaN = NaN"
| "fl_div (Fin x) (Fin y) = (if y = 0 then inf_of_sign (sgn x) else Fin (x / y))"
| "fl_div (Fin x) b = Fin 0"
| "fl_div a (Fin y) = (if y = 0 then a else inf_of_sign (fl_sgn a * sgn y))"
| "fl_div a b = NaN"

fun fl_less :: "fl \<Rightarrow> fl \<Rightarrow> bool" where
  "fl_less NaN b = False"
| "fl_less a NaN = False"
| "fl_less (Fin x) (Fin y) = (x < y)"
| "fl_less a MInf = False"
| "fl_less PInf b = False"
| "fl_less MInf b = True"
| "fl_less (Fin x) PInf = True"

fun fl_le :: "fl \<Rightarrow> fl \<Rightarrow> bool" where
  "fl_le NaN b = False"
| "fl_le a NaN = False"
| "fl_le a b = (a = b \<or> fl_less a b)"

text \<open>\<open>np.log\<close>: minus infinity at zero and NaN below it, with a warning and no exception.\<close>

definition np_log :: "real \<Rightarrow> fl" where
  "np_log x = (if 0 < x then Fin (ln x) else if x = 0 then MInf else NaN)"

text \<open>
  Rounding to the nearest integer, a tie going to the even one (\<open>np.rint\<close>).
\<close>

definition rint :: "real \<Rightarrow> int" where
  "rint y = (let f = \<lfloor>y\<rfloor>; d = y - of_int f
             in if d < 1 / 2 then f else if 1 / 2 < d then f + 1
                else if even f then f else f + 1)"

text \<open>
  Rounding to the nearest double, a tie going to the even significand. Around a
  non-zero \<open>x\<close> with \<open>2 powr e \<le> \<bar>x\<bar> < 2 powr (e + 1)\<close> the doubles lie at distance
  \<open>2 powr (e - 52)\<close> from each other. The exponent is not bounded: overflow and
  subnormal numbers, far from any price or volume, are not modelled.
\<close>

definition rnd :: "real \<Rightarrow> real" where
  "rnd x = (if x = 0 then 0
            else let u = 2 powr (of_int \<lfloor>log 2 \<bar>x\<bar>\<rfloor> - 52)
                 in of_int (rint (x / u)) * u)"

text \<open>The sum of two doubles; adding zero changes nothing.\<close>

definition fadd :: "real \<Rightarrow> real \<Rightarrow> real" where
  "fadd x y = (if x = 0 then y else if y = 0 then x else rnd (x + y))"

text \<open>A finite value of type \<open>fl\<close> rounded to a double.\<close>

fun fl_rnd :: "fl \<Rightarrow> fl" where
  "fl_rnd (Fin x) = Fin (rnd x)"
| "fl_rnd a = a"

text \<open>
  \<open>round(x, 2)\<close> on a NumPy float: the double product of the value and 100 is rounded to
  the nearest integer \<open>k\<close>, a tie going to the even one, and divided by 100. The result
  is the double nearest to \<open>k / 100\<close>; the model names it by that decimal, which is also
  how it prints.
\<close>

definition round2 :: "real \<Rightarrow> real" where
  "round2 x = of_int (rint (rnd (x * 100))) / 100"

fun fl_round2 :: "fl \<Rightarrow> fl" where
  "fl_round2 (Fin x) = Fin (round2 x)"
| "fl_round2 a = a"

text \<open>Python's \<open>min(a, b)\<close> keeps \<open>a\<close> unless \<open>b < a\<close>; so \<open>min(90, nan)\<close> is 90.\<close>

definition py_min :: "fl \<Rightarrow> fl \<Rightarrow> fl" where
  "py_min a b = (if fl_less b a then b else a)"

section \<open>Bars and frames\<close>

text \<open>
  One row of the frame that \<open>yf.download\<close> returns; the program reads four of its
  columns. A frame is the list of its rows, oldest first.
\<close>

record bar =
  High :: real
  Low :: real
  Close :: real
  Volume :: real

type_synonym frame = "bar list"

text \<open>
  The three helper methods of the class are \<open>_calculate_vwap\<close>,
  \<open>_find_volume_clusters\<close> and \<open>_calculate_confidence\<close>; a name cannot begin with an
  underscore here, so they are written without it.
\<close>

subsection \<open>\<open>get_data\<close>\<close>

text \<open>
  \<open>yf.download\<close> is the outside world. A source gives, for a ticker, a period and an
  interval, the frame downloaded, or \<open>None\<close> when the download raises. It is a snapshot:
  asked the same question twice, it gives the same answer. \<open>get_data\<close> turns both an
  exception and an empty frame into \<open>None\<close>.
\<close>

type_synonym source = "string \<Rightarrow> string \<Rightarrow> string \<Rightarrow> frame option"

definition get_data :: "source \<Rightarrow> string \<Rightarrow> string \<Rightarrow> string \<Rightarrow> frame option" where
  "get_data src ticker period interval =
     (case src ticker period interval of
        None \<Rightarrow> None
      | Some data \<Rightarrow> if data = [] then None else Some data)"

subsection \<open>\<open>_calculate_vwap\<close>\<close>

definition calculate_vwap :: "frame \<Rightarrow> fl" where
  "calculate_vwap df =
     fl_div (Fin (sum_list (map (\<lambda>b. Volume b * (High b + Low b + Close b) / 3) df)))
            (Fin (sum_list (map Volume df)))"

subsection \<open>\<open>_find_volume_clusters\<close>\<close>

text \<open>
  \<open>np.linspace(start, stop, num)\<close>: \<open>num\<close> points, so \<open>num - 1\<close> intervals. NumPy takes
  the step \<open>(stop - start) / (num - 1)\<close>, multiplies the indices by it (when the step is
  zero it divides the indices first and multiplies by the difference), adds \<open>start\<close>,
  and overwrites the last point with \<open>stop\<close>; each operation is on doubles.
\<close>

definition linspace :: "real \<Rightarrow> real \<Rightarrow> nat \<Rightarrow> real list" where
  "linspace start stop num =
     (let dv = real (num - 1);
          delta = rnd (stop - start);
          step = rnd (delta / dv);
          y = (\<lambda>i. if step = 0 then rnd (rnd (real i / dv) * delta)
                   else rnd (real i * step))
      in map (\<lambda>i. if i + 1 = num then stop else fadd (y i) start) [0..<num])"

text \<open>
  \<open>np.histogram(a, bins=edges, weights=w)\<close> with an array of edges. It raises
  \<open>ValueError\<close> when an edge is greater than the next one (equal edges pass). Otherwise
  it takes, for each edge, the weight of the values below it (for the last edge: the
  values up to it), and a bin's count is the difference of two neighbours.
\<close>

definition weight_where :: "(real \<Rightarrow> bool) \<Rightarrow> (real \<times> real) list \<Rightarrow> real" where
  "weight_where P ps = sum_list (map snd (filter (\<lambda>p. P (fst p)) ps))"

definition monotone_edges :: "real list \<Rightarrow> bool" where
  "monotone_edges bins = (\<forall>i < length bins - 1. \<not> bins ! i > bins ! (i + 1))"

definition histogram :: "real list \<Rightarrow> real list \<Rightarrow> real list \<Rightarrow> (real list \<times> real list) option" where
  "histogram a bins weights =
     (if \<not> monotone_edges bins then None
      else let m = length bins;
               cum_n = map (\<lambda>j. if j + 1 < m
                                  then weight_where (\<lambda>x. x < bins ! j) (zip a weights)
                                  else weight_where (\<lambda>x. x \<le> bins ! j) (zip a weights))
                           [0..<m]
           in Some (map (\<lambda>i. cum_n ! (i + 1) - cum_n ! i) [0..<m - 1], bins))"

text \<open>
  \<open>np.argsort\<close>: the indices in ascending order of their values. NumPy's default sort
  does not promise an order among equal values; the model takes the stable one.
\<close>

definition argsort :: "real list \<Rightarrow> nat list" where
  "argsort h = sort_key (\<lambda>i. h ! i) [0..<length h]"

text \<open>The slice \<open>[-3:]\<close>.\<close>

definition last_three :: "'a list \<Rightarrow> 'a list" where
  "last_three xs = drop (length xs - 3) xs"

text \<open>
  The histogram of the closes, weighted by volume (the first two lines of the \<open>try\<close>).
  \<open>get_data\<close> never hands on an empty frame, so the column minimum and maximum are taken
  of non-empty columns wherever the program runs; every statement below about them is
  for a non-empty frame.
\<close>

definition volume_histogram :: "frame \<Rightarrow> (real list \<times> real list) option" where
  "volume_histogram df =
     (let bins = linspace (Min (set (map Low df))) (Max (set (map High df))) 20
      in histogram (map Close df) bins (map Volume df))"

text \<open>The bare \<open>except\<close> turns the \<open>ValueError\<close> into the empty list.\<close>

definition find_volume_clusters :: "frame \<Rightarrow> real list" where
  "find_volume_clusters df =
     (case volume_histogram df of
        None \<Rightarrow> []
      | Some (hist, edges) \<Rightarrow> map (\<lambda>i. round2 (edges ! i)) (last_three (argsort hist)))"

text \<open>
  For the statements about the histogram: the volume of the bars whose close falls in
  bin \<open>i\<close> of the edges. A bin holds its lower edge and not its upper one, but the last
  bin holds both.
\<close>

definition bin_volume :: "real list \<Rightarrow> frame \<Rightarrow> nat \<Rightarrow> real" where
  "bin_volume edges df i =
     sum_list (map Volume (filter (\<lambda>b. edges ! i \<le> Close b \<and>
        (if i + 2 < length edges then Close b < edges ! (i + 1) else Close b \<le> edges ! (i + 1))) df))"

subsection \<open>\<open>identify_liquidity_pools\<close>\<close>

record zone =
  recent_low :: real
  recent_high :: real
  high_volume_nodes :: "real list"
  vwap :: fl

text \<open>
  The attribute \<open>self.liquidity_zones\<close> is the state of the analyzer. The empty
  dictionary that the method returns without data is \<open>None\<close>.
\<close>

type_synonym state = "string \<rightharpoonup> zone"

definition zone_of :: "frame \<Rightarrow> zone" where
  "zone_of data =
     \<lparr>recent_low = Min (set (map Low data)),
      recent_high = Max (set (map High data)),
      high_volume_nodes = find_volume_clusters data,
      vwap = calculate_vwap data\<rparr>"

definition identify_liquidity_pools :: "source \<Rightarrow> state \<Rightarrow> string \<Rightarrow> zone option \<times> state" where
  "identify_liquidity_pools src st ticker =
     (case get_data src ticker ''20d'' ''1d'' of
        None \<Rightarrow> (None, st)
      | Some data \<Rightarrow> (Some (zone_of data), st(ticker \<mapsto> zone_of data)))"

subsection \<open>\<open>_calculate_confidence\<close>\<close>

datatype error = IndexError

text \<open>\<open>.iloc[-1]\<close> raises on an empty series.\<close>

definition iloc_last :: "'a list \<Rightarrow> error + 'a" where
  "iloc_last xs = (if xs = [] then Inl IndexError else Inr (last xs))"

text \<open>\<open>Series.diff()\<close>: NaN first, then each element minus the one before it.\<close>

definition diff :: "fl list \<Rightarrow> fl list" where
  "diff xs = (case xs of [] \<Rightarrow> [] | x # rest \<Rightarrow> NaN # map2 fl_sub rest xs)"

text \<open>
  \<open>scipy.stats.percentileofscore\<close> is a parameter \<open>pos\<close> of the model. Its behaviour in
  SciPy 1.9 and later, with the defaults \<open>kind='rank'\<close> and \<open>nan_policy='propagate'\<close>, is
  \<open>percentileofscore\<close> below: NaN as soon as the sample or the score holds a NaN.
\<close>

type_synonym percentile = "fl list \<Rightarrow> fl \<Rightarrow> fl"

definition percentileofscore :: percentile where
  "percentileofscore a score =
     (if NaN \<in> set a \<or> score = NaN \<or> a = [] then NaN
      else let left = length (filter (\<lambda>x. fl_less x score) a);
               right = length (filter (\<lambda>x. fl_le x score) a);
               plus1 = (if left < right then 1 else 0)
           in Fin (real (left + right + plus1) * (50 / real (length a))))"

definition calculate_confidence :: "percentile \<Rightarrow> frame \<Rightarrow> string \<Rightarrow> error + fl" where
  "calculate_confidence pos df direction =
     (let returns = diff (map (\<lambda>b. np_log (Close b)) df)
      in case iloc_last returns of
           Inl e \<Rightarrow> Inl e
         | Inr r \<Rightarrow>
             if direction = ''down'' then Inr (fl_div (pos returns r) (Fin 100))
             else Inr (fl_sub (Fin 1) (fl_div (pos returns r) (Fin 100))))"

subsection \<open>\<open>detect_stop_hunt\<close>\<close>

record signal =
  sig_type :: string
  entry :: real
  stop :: real
  target :: fl
  confidence :: fl

text \<open>
  \<open>Series.mean()\<close>, used on the non-empty intraday frame only: the sum of the column
  divided by its length.
\<close>

definition series_mean :: "real list \<Rightarrow> real" where
  "series_mean xs = rnd (sum_list xs / real (length xs))"

text \<open>The two conditions, lines 95 to 97 and 107 to 109.\<close>

definition bear_condition :: "bar \<Rightarrow> frame \<Rightarrow> zone \<Rightarrow> bool" where
  "bear_condition current intraday lz =
     (Low current \<le> rnd (recent_low lz * rnd 1.005) \<and>
      Close current > recent_low lz \<and>
      Volume current > rnd (series_mean (map Volume intraday) * rnd 1.8))"

definition bull_condition :: "bar \<Rightarrow> frame \<Rightarrow> zone \<Rightarrow> bool" where
  "bull_condition current intraday lz =
     (High current \<ge> rnd (recent_high lz * rnd 0.995) \<and>
      Close current < recent_high lz \<and>
      Volume current > rnd (series_mean (map Volume intraday) * rnd 1.8))"

text \<open>The two dictionaries appended, given the value of \<open>_calculate_confidence\<close>.\<close>

definition bear_signal :: "bar \<Rightarrow> zone \<Rightarrow> fl \<Rightarrow> signal" where
  "bear_signal current lz c =
     \<lparr>sig_type = ''bear_trap'',
      entry = round2 (Close current),
      stop = round2 (rnd (recent_low lz * rnd 0.995)),
      target = fl_round2 (vwap lz),
      confidence = py_min (Fin 90) (fl_rnd (fl_mul c (Fin 100)))\<rparr>"

definition bull_signal :: "bar \<Rightarrow> zone \<Rightarrow> fl \<Rightarrow> signal" where
  "bull_signal current lz c =
     \<lparr>sig_type = ''bull_trap'',
      entry = round2 (Close current),
      stop = round2 (rnd (recent_high lz * rnd 1.005)),
      target = fl_round2 (vwap lz),
      confidence = py_min (Fin 90) (fl_rnd (fl_mul c (Fin 100)))\<rparr>"

text \<open>
  Lines 91 to 118 of \<open>detect_stop_hunt\<close>: the detection proper, on the intraday frame
  and the zone that the lines before have fetched. An exception leaves the function at
  once.
\<close>

definition detect_stop_hunt_on :: "percentile \<Rightarrow> frame \<Rightarrow> zone \<Rightarrow> error + signal list" where
  "detect_stop_hunt_on pos intraday lz =
     (case iloc_last intraday of
        Inl e \<Rightarrow> Inl e
      | Inr current \<Rightarrow>
          (case (if bear_condition current intraday lz
                 then (case calculate_confidence pos intraday ''down'' of
                         Inl e \<Rightarrow> Inl e
                       | Inr c \<Rightarrow> Inr [bear_signal current lz c])
                 else Inr []) of
             Inl e \<Rightarrow> Inl e
           | Inr signals \<Rightarrow>
               if bull_condition current intraday lz
               then (case calculate_confidence pos intraday ''up'' of
                       Inl e \<Rightarrow> Inl e
                     | Inr c \<Rightarrow> Inr (signals @ [bull_signal current lz c]))
               else Inr signals))"

text \<open>
  The whole method. It returns the signals or the exception, and the state of the
  analyzer after the call.
\<close>

definition detect_stop_hunt ::
  "percentile \<Rightarrow> source \<Rightarrow> state \<Rightarrow> string \<Rightarrow> (error + signal list) \<times> state" where
  "detect_stop_hunt pos src st ticker =
     (case get_data src ticker ''1d'' ''5m'' of
        None \<Rightarrow> (Inr [], st)
      | Some intraday \<Rightarrow>
          (case identify_liquidity_pools src st ticker of
             (None, st') \<Rightarrow> (Inr [], st')
           | (Some lz, st') \<Rightarrow> (detect_stop_hunt_on pos intraday lz, st')))"

subsection \<open>\<open>scan_market\<close>\<close>

text \<open>The loop over the tickers; \<open>results\<close> is the dictionary being filled.\<close>

fun scan_loop ::
  "percentile \<Rightarrow> source \<Rightarrow> string list \<Rightarrow> (string \<rightharpoonup> signal list) \<Rightarrow> state
     \<Rightarrow> (error + (string \<rightharpoonup> signal list)) \<times> state" where
  "scan_loop pos src [] results st = (Inr results, st)"
| "scan_loop pos src (ticker # rest) results st =
     (case detect_stop_hunt pos src st ticker of
        (Inl e, st') \<Rightarrow> (Inl e, st')
      | (Inr signals, st') \<Rightarrow>
          scan_loop pos src rest
            (if signals \<noteq> [] then results(ticker \<mapsto> signals) else results) st')"

definition scan_market ::
  "percentile \<Rightarrow> source \<Rightarrow> state \<Rightarrow> string list
     \<Rightarrow> (error + (string \<rightharpoonup> signal list)) \<times> state" where
  "scan_market pos src st tickers = scan_loop pos src tickers Map.empty st"

text \<open>
  The signals that \<open>detect_stop_hunt\<close> returns for a ticker. The method reads the
  source only, never the cache, so they are taken on the empty cache; lemma
  \<open>detect_stop_hunt_signals_of\<close> shows that every cache gives them.
\<close>

definition signals_of :: "percentile \<Rightarrow> source \<Rightarrow> string \<Rightarrow> signal list" where
  "signals_of pos src ticker =
     (case fst (detect_stop_hunt pos src Map.empty ticker) of Inr sigs \<Rightarrow> sigs | Inl e \<Rightarrow> [])"

section \<open>Inputs of the examples\<close>



text \<open>
  The window of the specification's scenarios A, B and C, and an intraday frame for
  scenario B: its latest bar has as Low the double nearest to 98.3, Close 99 and Volume
  15000, and the mean volume of the frame is 8000. The source serves ticker A the
  window at both resolutions (the latest volume 2000 is below the threshold), ticker B
  the window as daily data and the scenario B frame as intraday data, and has no data
  for any other ticker.
\<close>

definition scenario_window :: frame where
  "scenario_window =
     [\<lparr>High = 105, Low = 100, Close = 104, Volume = 1000\<rparr>,
      \<lparr>High = 107, Low = 98, Close = 99, Volume = 5000\<rparr>,
      \<lparr>High = 106, Low = 99, Close = 105, Volume = 2000\<rparr>]"

definition scenario_B_intraday :: frame where
  "scenario_B_intraday =
     [\<lparr>High = 100, Low = 99, Close = 99.5, Volume = 1000\<rparr>,
      \<lparr>High = 99.75, Low = 98.875, Close = 99.125, Volume = 8000\<rparr>,
      \<lparr>High = 99.5, Low = rnd 98.3, Close = 99, Volume = 15000\<rparr>]"

definition scenario_source :: source where
  "scenario_source ticker period interval =
     (if ticker = ''A'' then Some scenario_window
      else if ticker = ''B''
           then (if period = ''20d'' then Some scenario_window else Some scenario_B_intraday)
      else None)"

text \<open>A zone and an intraday frame whose latest bar meets both conditions.\<close>

definition both_traps_zone :: zone where
  "both_traps_zone =
     \<lparr>recent_low = 98, recent_high = 108, high_volume_nodes = [], vwap = Fin 102\<rparr>"

definition both_traps_intraday :: frame where
  "both_traps_intraday =
     [\<lparr>High = 100, Low = 99, Close = 99.5, Volume = 1000\<rparr>,
      \<lparr>High = 107.75, Low = 98.25, Close = 99, Volume = 15000\<rparr>]"

text \<open>
  A zone with \<open>recent_low = 100\<close> and a latest bar with \<open>Low = 100.5\<close>: the double product
  \<open>100 * 1.005\<close> is below 100.5.
\<close>

definition edge_zone :: zone where
  "edge_zone =
     \<lparr>recent_low = 100, recent_high = 110, high_volume_nodes = [], vwap = Fin 105\<rparr>"

definition edge_intraday :: frame where
  "edge_intraday =
     [\<lparr>High = 101, Low = 100.25, Close = 100.75, Volume = 1000\<rparr>,
      \<lparr>High = 101.5, Low = 100.5, Close = 101, Volume = 15000\<rparr>]"

text \<open>
  Nine bars whose volumes have the mean \<open>305 / 9\<close>, the latest with volume 61, which is
  1.8 times that mean, and with a close of three decimals.
\<close>

definition tie_zone :: zone where
  "tie_zone =
     \<lparr>recent_low = 50, recent_high = 108, high_volume_nodes = [], vwap = Fin 105\<rparr>"

definition tie_intraday :: frame where
  "tie_intraday =
     [\<lparr>High = 107.5, Low = 107, Close = 107.25, Volume = 30\<rparr>,
      \<lparr>High = 107.5, Low = 107, Close = 107.25, Volume = 30\<rparr>,
      \<lparr>High = 107.5, Low = 107, Close = 107.25, Volume = 30\<rparr>,
      \<lparr>High = 107.5, Low = 107, Close = 107.25, Volume = 30\<rparr>,
      \<lparr>High = 107.5, Low = 107, Close = 107.25, Volume = 31\<rparr>,
      \<lparr>High = 107.5, Low = 107, Close = 107.25, Volume = 31\<rparr>,
      \<lparr>High = 107.5, Low = 107, Close = 107.25, Volume = 31\<rparr>,
      \<lparr>High = 107.5, Low = 107, Close = 107.25, Volume = 31\<rparr>,
      \<lparr>High = 107.75, Low = 107, Close = 107.125, Volume = 61\<rparr>]"

text \<open>A frame of a single bar.\<close>

definition one_bar :: frame where
  "one_bar = [\<lparr>High = 105, Low = 100, Close = 104, Volume = 1000\<rparr>]"

text \<open>
  Windows for the volume clusters: two equal bars with \<open>High = Low = Close\<close>, and a
  source that serves them; a single bar that closes at its high; a single bar that
  closes at its low, a low that is no whole number of cents; a single bar with
  \<open>High = Low = Close\<close> at the double nearest to 1.055.
\<close>

definition flat_window :: frame where
  "flat_window =
     [\<lparr>High = 50, Low = 50, Close = 50, Volume = 100\<rparr>,
      \<lparr>High = 50, Low = 50, Close = 50, Volume = 200\<rparr>]"

definition flat_source :: source where
  "flat_source ticker period interval = Some flat_window"

definition tall_bar :: frame where
  "tall_bar = [\<lparr>High = 19, Low = 0, Close = 19, Volume = 10\<rparr>]"


definition half_cent_bar :: frame where
  "half_cent_bar =
     [\<lparr>High = rnd 1.055, Low = rnd 1.055, Close = rnd 1.055, Volume = 1000\<rparr>]"

section \<open>Properties\<close>

subsection \<open>Rounding\<close>

lemma rint_mono:
  assumes "x \<le> y"
  shows "rint x \<le> rint y"
proof (cases "\<lfloor>x\<rfloor> = \<lfloor>y\<rfloor>")
  case True
  with assms show ?thesis by (auto simp: rint_def Let_def)
next
  case False
  with assms have "\<lfloor>x\<rfloor> + 1 \<le> \<lfloor>y\<rfloor>"
    using floor_mono [of x y] by linarith
  moreover have "rint x \<le> \<lfloor>x\<rfloor> + 1" by (simp add: rint_def Let_def)
  moreover have "\<lfloor>y\<rfloor> \<le> rint y" by (simp add: rint_def Let_def)
  ultimately show ?thesis by linarith
qed

lemma rint_of_int: "rint (of_int n) = n"
  by (simp add: rint_def)

lemma rint_ge: "of_int a \<le> y \<Longrightarrow> a \<le> rint y"
  using rint_mono [of "of_int a" y] by (simp add: rint_of_int)

lemma rint_le: "y \<le> of_int b \<Longrightarrow> rint y \<le> b"
  using rint_mono [of y "of_int b"] by (simp add: rint_of_int)

lemma rint_close: "\<bar>real_of_int (rint y) - y\<bar> \<le> 1 / 2"
proof -
  have "real_of_int \<lfloor>y\<rfloor> \<le> y" "y < real_of_int \<lfloor>y\<rfloor> + 1" by linarith+
  then show ?thesis by (auto simp: rint_def Let_def)
qed

lemma binade:
  assumes "x \<noteq> 0"
  defines "e \<equiv> \<lfloor>log 2 \<bar>x\<bar>\<rfloor>"
  shows "2 powr of_int e \<le> \<bar>x\<bar>" "\<bar>x\<bar> < 2 powr (of_int e + 1)"
proof -
  from assms have p: "0 < \<bar>x\<bar>" by simp
  have "of_int e \<le> log 2 \<bar>x\<bar>" "log 2 \<bar>x\<bar> < of_int e + 1"
    unfolding e_def by linarith+
  then show "2 powr of_int e \<le> \<bar>x\<bar>" "\<bar>x\<bar> < 2 powr (of_int e + 1)"
    using p by (simp_all add: le_log_iff log_less_iff)
qed

lemma binade_unique:
  assumes "2 powr of_int e \<le> \<bar>x\<bar>" "\<bar>x\<bar> < 2 powr (of_int e + 1)"
  shows "\<lfloor>log 2 \<bar>x\<bar>\<rfloor> = e"
proof -
  have p: "0 < \<bar>x\<bar>" using assms(1) powr_gt_zero [of 2 "of_int e"] by linarith
  have "of_int e \<le> log 2 \<bar>x\<bar>" "log 2 \<bar>x\<bar> < of_int e + 1"
    using assms p by (simp_all add: le_log_iff log_less_iff)
  then show ?thesis by linarith
qed

lemma rnd_0: "rnd 0 = 0"
  by (simp add: rnd_def)

lemma rnd_at:
  assumes "2 powr of_int e \<le> \<bar>x\<bar>" "\<bar>x\<bar> < 2 powr (of_int e + 1)"
  shows "rnd x = of_int (rint (x / 2 powr (of_int e - 52))) * 2 powr (of_int e - 52)"
proof -
  have "x \<noteq> 0" using assms(1) powr_gt_zero [of 2 "of_int e"] by auto
  then show ?thesis
    by (simp add: rnd_def Let_def binade_unique [OF assms])
qed

lemma scaled:
  "(2::real) ^ 52 * 2 powr (of_int e - 52) = 2 powr of_int e"
  "(2::real) ^ 53 * 2 powr (of_int e - 52) = 2 powr (of_int e + 1)"
proof -
  have "(2::real) powr 52 * 2 powr (of_int e - 52) = 2 powr (52 + (of_int e - 52))"
    by (simp only: powr_add)
  also have "\<dots> = 2 powr of_int e" by simp
  finally show "(2::real) ^ 52 * 2 powr (of_int e - 52) = 2 powr of_int e" by simp
  have "(2::real) powr 53 * 2 powr (of_int e - 52) = 2 powr (53 + (of_int e - 52))"
    by (simp only: powr_add)
  also have "\<dots> = 2 powr (of_int e + 1)" by (simp add: algebra_simps)
  finally show "(2::real) ^ 53 * 2 powr (of_int e - 52) = 2 powr (of_int e + 1)" by simp
qed

lemma rnd_pos_bounds:
  assumes "2 powr of_int e \<le> x" "x < 2 powr (of_int e + 1)"
  shows "2 powr of_int e \<le> rnd x" "rnd x \<le> 2 powr (of_int e + 1)"
proof -
  let ?u = "(2::real) powr (of_int e - 52)"
  have u: "0 < ?u" by simp
  have x: "0 < x" using assms(1) powr_gt_zero [of 2 "of_int e"] by linarith
  have r: "rnd x = of_int (rint (x / ?u)) * ?u"
    using assms x by (intro rnd_at) simp_all
  have "2 ^ 52 * ?u \<le> x" "x \<le> 2 ^ 53 * ?u"
    using assms unfolding scaled by simp_all
  then have "2 ^ 52 \<le> x / ?u" "x / ?u \<le> 2 ^ 53"
    using u by (simp_all only: pos_le_divide_eq pos_divide_le_eq)
  then have "of_int (2 ^ 52) \<le> x / ?u" "x / ?u \<le> of_int (2 ^ 53)"
    by simp_all
  then have "2 ^ 52 \<le> rint (x / ?u)" "rint (x / ?u) \<le> 2 ^ 53"
    by (simp_all only: rint_ge rint_le)
  then have "of_int (2 ^ 52) \<le> real_of_int (rint (x / ?u))"
    "real_of_int (rint (x / ?u)) \<le> of_int (2 ^ 53)"
    by (simp_all only: of_int_le_iff)
  then have "2 ^ 52 \<le> real_of_int (rint (x / ?u))" "real_of_int (rint (x / ?u)) \<le> 2 ^ 53"
    by simp_all
  then have "2 ^ 52 * ?u \<le> of_int (rint (x / ?u)) * ?u"
    "of_int (rint (x / ?u)) * ?u \<le> 2 ^ 53 * ?u"
    using u by (simp_all only: mult_le_cancel_right_pos)
  then show "2 powr of_int e \<le> rnd x" "rnd x \<le> 2 powr (of_int e + 1)"
    unfolding scaled r by simp_all
qed

lemma rnd_neg_bounds:
  assumes "2 powr of_int e \<le> - x" "- x < 2 powr (of_int e + 1)"
  shows "rnd x \<le> - (2 powr of_int e)" "- (2 powr (of_int e + 1)) \<le> rnd x"
proof -
  let ?u = "(2::real) powr (of_int e - 52)"
  have u: "0 < ?u" by simp
  have x: "x < 0" using assms(1) powr_gt_zero [of 2 "of_int e"] by linarith
  have r: "rnd x = of_int (rint (x / ?u)) * ?u"
    using assms x by (intro rnd_at) simp_all
  have "x \<le> - (2 ^ 52) * ?u" "- (2 ^ 53) * ?u \<le> x"
    using assms unfolding mult_minus_left scaled by simp_all
  then have "x / ?u \<le> - (2 ^ 52)" "- (2 ^ 53) \<le> x / ?u"
    using u by (simp_all only: pos_le_divide_eq pos_divide_le_eq)
  then have "x / ?u \<le> of_int (- (2 ^ 52))" "of_int (- (2 ^ 53)) \<le> x / ?u"
    by simp_all
  then have "rint (x / ?u) \<le> - (2 ^ 52)" "- (2 ^ 53) \<le> rint (x / ?u)"
    by (simp_all only: rint_ge rint_le)
  then have "real_of_int (rint (x / ?u)) \<le> of_int (- (2 ^ 52))"
    "of_int (- (2 ^ 53)) \<le> real_of_int (rint (x / ?u))"
    by (simp_all only: of_int_le_iff)
  then have "real_of_int (rint (x / ?u)) \<le> - (2 ^ 52)" "- (2 ^ 53) \<le> real_of_int (rint (x / ?u))"
    by simp_all
  then have "of_int (rint (x / ?u)) * ?u \<le> - (2 ^ 52) * ?u"
    "- (2 ^ 53) * ?u \<le> of_int (rint (x / ?u)) * ?u"
    using u by (simp_all only: mult_le_cancel_right_pos)
  then show "rnd x \<le> - (2 powr of_int e)" "- (2 powr (of_int e + 1)) \<le> rnd x"
    unfolding mult_minus_left scaled r by simp_all
qed

lemma rnd_mono_pos:
  assumes "0 < x" "x \<le> y"
  shows "rnd x \<le> rnd y"
proof -
  define ex where "ex = \<lfloor>log 2 \<bar>x\<bar>\<rfloor>"
  define ey where "ey = \<lfloor>log 2 \<bar>y\<bar>\<rfloor>"
  from assms have y: "0 < y" by simp
  have bx: "2 powr of_int ex \<le> x" "x < 2 powr (of_int ex + 1)"
    using binade [of x] assms(1) by (simp_all add: ex_def)
  have bY: "2 powr of_int ey \<le> y" "y < 2 powr (of_int ey + 1)"
    using binade [of y] y by (simp_all add: ey_def)
  have "log 2 x \<le> log 2 y" using assms by simp
  then have le: "ex \<le> ey"
    using assms y by (simp add: ex_def ey_def floor_mono)
  show ?thesis
  proof (cases "ex = ey")
    case True
    let ?u = "(2::real) powr (of_int ey - 52)"
    have "rnd x = of_int (rint (x / ?u)) * ?u" "rnd y = of_int (rint (y / ?u)) * ?u"
      using bx bY assms(1) y True by (simp_all add: rnd_at)
    moreover have "rint (x / ?u) \<le> rint (y / ?u)"
      using assms by (intro rint_mono divide_right_mono) simp_all
    ultimately show ?thesis by (simp add: mult_right_mono)
  next
    case False
    with le have "ex + 1 \<le> ey" by simp
    then have "real_of_int (ex + 1) \<le> real_of_int ey" by (simp only: of_int_le_iff)
    then have "(2::real) powr (of_int ex + 1) \<le> 2 powr of_int ey"
      by (intro powr_mono) simp_all
    with rnd_pos_bounds(2) [OF bx] rnd_pos_bounds(1) [OF bY] show ?thesis by linarith
  qed
qed

lemma rnd_mono_neg:
  assumes "y < 0" "x \<le> y"
  shows "rnd x \<le> rnd y"
proof -
  define ex where "ex = \<lfloor>log 2 \<bar>x\<bar>\<rfloor>"
  define ey where "ey = \<lfloor>log 2 \<bar>y\<bar>\<rfloor>"
  from assms have x: "x < 0" by simp
  have bx: "2 powr of_int ex \<le> - x" "- x < 2 powr (of_int ex + 1)"
    using binade [of x] x by (simp_all add: ex_def)
  have bY: "2 powr of_int ey \<le> - y" "- y < 2 powr (of_int ey + 1)"
    using binade [of y] assms(1) by (simp_all add: ey_def)
  have "log 2 (- y) \<le> log 2 (- x)" using assms by simp
  then have le: "ey \<le> ex"
    using assms x by (simp add: ex_def ey_def floor_mono)
  show ?thesis
  proof (cases "ex = ey")
    case True
    let ?u = "(2::real) powr (of_int ey - 52)"
    have "rnd x = of_int (rint (x / ?u)) * ?u" "rnd y = of_int (rint (y / ?u)) * ?u"
      using bx bY assms(1) x True by (simp_all add: rnd_at)
    moreover have "rint (x / ?u) \<le> rint (y / ?u)"
      using assms by (intro rint_mono divide_right_mono) simp_all
    ultimately show ?thesis by (simp add: mult_right_mono)
  next
    case False
    with le have "ey + 1 \<le> ex" by simp
    then have "real_of_int (ey + 1) \<le> real_of_int ex" by (simp only: of_int_le_iff)
    then have "(2::real) powr (of_int ey + 1) \<le> 2 powr of_int ex"
      by (intro powr_mono) simp_all
    with rnd_neg_bounds(1) [OF bx] rnd_neg_bounds(2) [OF bY] show ?thesis by linarith
  qed
qed

lemma rnd_nonneg: "0 \<le> x \<Longrightarrow> 0 \<le> rnd x"
proof (cases "x = 0")
  case True then show ?thesis by (simp add: rnd_0)
next
  case False
  assume "0 \<le> x"
  with False have x: "0 < x" by simp
  from binade [of x] x rnd_pos_bounds(1) [of "\<lfloor>log 2 \<bar>x\<bar>\<rfloor>" x]
  have "2 powr of_int \<lfloor>log 2 \<bar>x\<bar>\<rfloor> \<le> rnd x" by simp
  moreover have "0 < (2::real) powr of_int \<lfloor>log 2 \<bar>x\<bar>\<rfloor>" by simp
  ultimately show ?thesis by linarith
qed

lemma rnd_nonpos: "x \<le> 0 \<Longrightarrow> rnd x \<le> 0"
proof (cases "x = 0")
  case True then show ?thesis by (simp add: rnd_0)
next
  case False
  assume "x \<le> 0"
  with False have x: "x < 0" by simp
  from binade [of x] x rnd_neg_bounds(1) [of "\<lfloor>log 2 \<bar>x\<bar>\<rfloor>" x]
  have "rnd x \<le> - (2 powr of_int \<lfloor>log 2 \<bar>x\<bar>\<rfloor>)" by simp
  moreover have "0 < (2::real) powr of_int \<lfloor>log 2 \<bar>x\<bar>\<rfloor>" by simp
  ultimately show ?thesis by linarith
qed

lemma rnd_mono: "x \<le> y \<Longrightarrow> rnd x \<le> rnd y"
proof -
  assume le: "x \<le> y"
  consider "0 < x" | "y < 0" | "x \<le> 0" "0 \<le> y" by linarith
  then show ?thesis
  proof cases
    case 1 then show ?thesis using le by (rule rnd_mono_pos)
  next
    case 2 then show ?thesis using le by (rule rnd_mono_neg)
  next
    case 3
    then have "rnd x \<le> 0" "0 \<le> rnd y" by (simp_all add: rnd_nonpos rnd_nonneg)
    then show ?thesis by linarith
  qed
qed


lemma rnd_rel_err: "\<bar>rnd x - x\<bar> \<le> \<bar>x\<bar> / 2 ^ 53"
proof (cases "x = 0")
  case True then show ?thesis by (simp add: rnd_0)
next
  case False
  define e where "e = \<lfloor>log 2 \<bar>x\<bar>\<rfloor>"
  let ?u = "(2::real) powr (of_int e - 52)"
  have u: "0 < ?u" by simp
  have b: "2 powr of_int e \<le> \<bar>x\<bar>" "\<bar>x\<bar> < 2 powr (of_int e + 1)"
    using binade [OF False] by (simp_all add: e_def)
  have r: "rnd x = of_int (rint (x / ?u)) * ?u" using b by (rule rnd_at)
  have "rnd x - x = (of_int (rint (x / ?u)) - x / ?u) * ?u"
    using u by (simp add: r algebra_simps)
  then have "\<bar>rnd x - x\<bar> = \<bar>of_int (rint (x / ?u)) - x / ?u\<bar> * ?u"
    using u by (simp add: abs_mult)
  also have "\<dots> \<le> 1 / 2 * ?u"
    using rint_close [of "x / ?u"] u by (intro mult_right_mono) simp_all
  also have "2 ^ 52 * ?u \<le> \<bar>x\<bar>" using b(1) unfolding scaled .
  then have "1 / 2 * ?u \<le> \<bar>x\<bar> / 2 ^ 53" by simp
  finally show ?thesis .
qed

lemma powr_minus_nat: "(2::real) powr (- real m) = 1 / 2 ^ m"
proof -
  have "(2::real) powr (- real m) = inverse (2 powr real m)" by (rule powr_minus)
  also have "(2::real) powr real m = 2 ^ m" by (rule powr_realpow) simp
  finally show ?thesis by (simp add: inverse_eq_divide)
qed

lemma rnd_high:
  fixes k :: nat
  assumes "k \<le> 52" "2 ^ k \<le> x" "x < 2 ^ (k + 1)"
  shows "rnd x = of_int (rint (x * 2 ^ (52 - k))) / 2 ^ (52 - k)"
proof -
  have p: "(2::real) powr of_int (int k) = 2 ^ k"
    using powr_realpow [of 2 k] by simp
  have "(2::real) powr (of_int (int k) + 1) = 2 powr real (k + 1)"
    by (simp add: add.commute)
  also have "\<dots> = 2 ^ (k + 1)" by (rule powr_realpow) simp
  finally have q: "(2::real) powr (of_int (int k) + 1) = 2 ^ (k + 1)" .
  have x: "0 < x" using assms(2) zero_less_power [of "2::real" k] by linarith
  have "real_of_int (int k) - 52 = - real (52 - k)" using assms(1) by simp
  then have u: "(2::real) powr (of_int (int k) - 52) = 1 / 2 ^ (52 - k)"
    by (simp only: powr_minus_nat)
  have "rnd x = of_int (rint (x / 2 powr (of_int (int k) - 52))) * 2 powr (of_int (int k) - 52)"
    using assms x unfolding p [symmetric] q [symmetric] by (intro rnd_at) simp_all
  then show ?thesis unfolding u by simp
qed

lemma rnd_low:
  fixes k :: nat
  assumes "1 \<le> x * 2 ^ k" "x * 2 ^ k < 2"
  shows "rnd x = of_int (rint (x * 2 ^ (52 + k))) / 2 ^ (52 + k)"
proof -
  have "real_of_int (- int k) = - real k" by simp
  then have p: "(2::real) powr of_int (- int k) = 1 / 2 ^ k"
    by (simp only: powr_minus_nat)
  have "(2::real) powr (of_int (- int k) + 1) = 2 powr of_int (- int k) * 2 powr 1"
    by (simp only: powr_add)
  then have q: "(2::real) powr (of_int (- int k) + 1) = 2 / 2 ^ k"
    unfolding p by simp
  have "0 < x * 2 ^ k" using assms(1) by linarith
  then have x: "0 < x" by (simp add: zero_less_mult_iff)
  have "real_of_int (- int k) - 52 = - real (52 + k)" by simp
  then have u: "(2::real) powr (of_int (- int k) - 52) = 1 / 2 ^ (52 + k)"
    by (simp only: powr_minus_nat)
  have "2 powr of_int (- int k) \<le> \<bar>x\<bar>" "\<bar>x\<bar> < 2 powr (of_int (- int k) + 1)"
    using assms x unfolding p q by (simp_all add: field_simps)
  then have "rnd x = of_int (rint (x / 2 powr (of_int (- int k) - 52)))
          * 2 powr (of_int (- int k) - 52)"
    by (rule rnd_at)
  then show ?thesis unfolding u by simp
qed

lemma rint_eval:
  assumes "of_int n - 1 / 2 < y" "y < of_int n + 1 / 2"
  shows "rint y = n"
proof -
  have "\<lfloor>y\<rfloor> = n \<or> \<lfloor>y\<rfloor> = n - 1" using assms by linarith
  then show ?thesis
  proof
    assume "\<lfloor>y\<rfloor> = n" with assms show ?thesis by (simp add: rint_def Let_def)
  next
    assume "\<lfloor>y\<rfloor> = n - 1" with assms show ?thesis by (simp add: rint_def Let_def)
  qed
qed

lemma rint_numeral [simp]: "rint (numeral n) = numeral n"
  using rint_of_int [of "numeral n"] by simp

lemma rnd_nat:
  assumes "n < 2 ^ 53"
  shows "rnd (real n) = real n"
proof (cases "n = 0")
  case True then show ?thesis by (simp add: rnd_0)
next
  case False
  define e where "e = \<lfloor>log 2 \<bar>real n\<bar>\<rfloor>"
  from False have n1: "1 \<le> real n" by simp
  then have "0 \<le> log 2 (real n)" by simp
  then have "0 \<le> e" by (simp add: e_def)
  then obtain k :: nat where k: "e = int k" by (metis nonneg_int_cases)
  have b: "2 powr of_int e \<le> \<bar>real n\<bar>" "\<bar>real n\<bar> < 2 powr (of_int e + 1)"
    using binade [of "real n"] False by (simp_all add: e_def)
  have p: "(2::real) powr of_int (int k) = 2 ^ k"
    using powr_realpow [of 2 k] by simp
  have "(2::real) powr (of_int (int k) + 1) = 2 powr real (k + 1)"
    by (simp add: add.commute)
  also have "\<dots> = 2 ^ (k + 1)" by (rule powr_realpow) simp
  finally have q: "(2::real) powr (of_int (int k) + 1) = 2 ^ (k + 1)" .
  from b have lo: "(2::real) ^ k \<le> real n" and hi: "real n < 2 ^ (k + 1)"
    unfolding k p q by simp_all
  have "(2::real) ^ k \<le> real n" by (rule lo)
  also have "real n < 2 ^ 53" using assms by (metis of_nat_less_iff of_nat_numeral of_nat_power)
  finally have "k < 53" by (simp only: power_strict_increasing_iff one_less_numeral_iff semiring_norm)
  then have k52: "k \<le> 52" by simp
  have "rnd (real n) = of_int (rint (real n * 2 ^ (52 - k))) / 2 ^ (52 - k)"
    using k52 lo hi by (rule rnd_high)
  moreover have "real n * 2 ^ (52 - k) = of_int (int n * 2 ^ (52 - k))" by simp
  ultimately have "rnd (real n) = of_int (int n * 2 ^ (52 - k)) / 2 ^ (52 - k)"
    by (simp only: rint_of_int)
  then show ?thesis by simp
qed

lemma rnd_numeral: "numeral n < (2::nat) ^ 53 \<Longrightarrow> rnd (numeral n) = numeral n"
  using rnd_nat [of "numeral n"] by simp




lemma fadd_0 [simp]: "fadd 0 y = y" "fadd x 0 = x"
  by (simp_all add: fadd_def)

lemma rnd_eq_0: "rnd x = 0 \<Longrightarrow> x = 0"
proof (rule ccontr)
  assume r: "rnd x = 0" and n: "x \<noteq> 0"
  from rnd_rel_err [of x] r have "\<bar>x\<bar> \<le> \<bar>x\<bar> / 2 ^ 53" by simp
  moreover from n have "\<bar>x\<bar> / 2 ^ 53 < \<bar>x\<bar>" by simp
  ultimately show False by linarith
qed

lemma rnd_upper:
  assumes "0 \<le> x"
  shows "rnd x \<le> x * (101 / 100)"
proof -
  have "rnd x - x \<le> \<bar>rnd x - x\<bar>" by simp
  also have "\<dots> \<le> \<bar>x\<bar> / 2 ^ 53" by (rule rnd_rel_err)
  finally have "rnd x \<le> x + x / 2 ^ 53" using assms by simp
  also have "x / 2 ^ 53 \<le> x / 100" using assms by (intro divide_left_mono) simp_all
  finally show ?thesis by simp
qed

lemma fadd_mono:
  assumes "rnd y = y" "0 \<le> a" "a \<le> b"
  shows "fadd a y \<le> fadd b y"
proof (cases "b = 0")
  case True
  with assms have "a = 0" by simp
  with True show ?thesis by simp
next
  case b: False
  show ?thesis
  proof (cases "y = 0")
    case True
    with assms show ?thesis by simp
  next
    case y: False
    show ?thesis
    proof (cases "a = 0")
      case True
      have "rnd y \<le> rnd (b + y)" using assms by (intro rnd_mono) simp
      with True b y assms(1) show ?thesis by (simp add: fadd_def)
    next
      case False
      have "rnd (a + y) \<le> rnd (b + y)" using assms by (intro rnd_mono) simp
      with False b y show ?thesis by (simp add: fadd_def)
    qed
  qed
qed



subsection \<open>Values\<close>

text \<open>
  The doubles of the literals \<open>1.005\<close>, \<open>0.995\<close> and \<open>1.8\<close>, and the double products and
  roundings that the examples need. Each is found from the binade of the exact value
  (\<open>rnd_high\<close>, \<open>rnd_low\<close>) and the integer nearest to the scaled value (\<open>rint_eval\<close>).
\<close>

lemma rnd_1_005: "rnd (201 / 200) = 1131529406376837 / 1125899906842624"
proof -
  have "rnd (201 / 200) = of_int (rint ((201 / 200) * 2 ^ (52 - 0))) / 2 ^ (52 - 0)"
    by (rule rnd_high) simp_all
  moreover have "rint ((201 / 200) * 2 ^ (52 - 0)) = 4526117625507348"
    by (rule rint_eval) simp_all
  ultimately show ?thesis
    by simp
qed

lemma rnd_0_995: "rnd (199 / 200) = 8962163258467287 / 9007199254740992"
proof -
  have "rnd (199 / 200) = of_int (rint ((199 / 200) * 2 ^ (52 + 1))) / 2 ^ (52 + 1)"
    by (rule rnd_low) simp_all
  moreover have "rint ((199 / 200) * 2 ^ (52 + 1)) = 8962163258467287"
    by (rule rint_eval) simp_all
  ultimately show ?thesis
    by simp
qed

lemma rnd_1_8: "rnd (9 / 5) = 8106479329266893 / 4503599627370496"
proof -
  have "rnd (9 / 5) = of_int (rint ((9 / 5) * 2 ^ (52 - 0))) / 2 ^ (52 - 0)"
    by (rule rnd_high) simp_all
  moreover have "rint ((9 / 5) * 2 ^ (52 - 0)) = 8106479329266893"
    by (rule rint_eval) simp_all
  ultimately show ?thesis
    by simp
qed

lemma low_threshold_98: "rnd (55444940912465013 / 562949953421312) = 6930617614058127 / 70368744177664"
proof -
  have "rnd (55444940912465013 / 562949953421312) = of_int (rint ((55444940912465013 / 562949953421312) * 2 ^ (52 - 6))) / 2 ^ (52 - 6)"
    by (rule rnd_high) simp_all
  moreover have "rint ((55444940912465013 / 562949953421312) * 2 ^ (52 - 6)) = 6930617614058127"
    by (rule rint_eval) simp_all
  ultimately show ?thesis
    by simp
qed

lemma low_threshold_100: "rnd (28288235159420925 / 281474976710656) = 7072058789855231 / 70368744177664"
proof -
  have "rnd (28288235159420925 / 281474976710656) = of_int (rint ((28288235159420925 / 281474976710656) * 2 ^ (52 - 6))) / 2 ^ (52 - 6)"
    by (rule rnd_high) simp_all
  moreover have "rint ((28288235159420925 / 281474976710656) * 2 ^ (52 - 6)) = 7072058789855231"
    by (rule rint_eval) simp_all
  ultimately show ?thesis
    by simp
qed

lemma low_threshold_50: "rnd (28288235159420925 / 562949953421312) = 7072058789855231 / 140737488355328"
proof -
  have "rnd (28288235159420925 / 562949953421312) = of_int (rint ((28288235159420925 / 562949953421312) * 2 ^ (52 - 5))) / 2 ^ (52 - 5)"
    by (rule rnd_high) simp_all
  moreover have "rint ((28288235159420925 / 562949953421312) * 2 ^ (52 - 5)) = 7072058789855231"
    by (rule rint_eval) simp_all
  ultimately show ?thesis
    by simp
qed

lemma high_threshold_107: "rnd (958951468655999709 / 9007199254740992) = 3745904174437499 / 35184372088832"
proof -
  have "rnd (958951468655999709 / 9007199254740992) = of_int (rint ((958951468655999709 / 9007199254740992) * 2 ^ (52 - 6))) / 2 ^ (52 - 6)"
    by (rule rnd_high) simp_all
  moreover have "rint ((958951468655999709 / 9007199254740992) * 2 ^ (52 - 6)) = 7491808348874998"
    by (rule rint_eval) simp_all
  ultimately show ?thesis
    by simp
qed

lemma high_threshold_108: "rnd (241978407978616749 / 2251799813685248) = 7561825249331773 / 70368744177664"
proof -
  have "rnd (241978407978616749 / 2251799813685248) = of_int (rint ((241978407978616749 / 2251799813685248) * 2 ^ (52 - 6))) / 2 ^ (52 - 6)"
    by (rule rnd_high) simp_all
  moreover have "rint ((241978407978616749 / 2251799813685248) * 2 ^ (52 - 6)) = 7561825249331773"
    by (rule rint_eval) simp_all
  ultimately show ?thesis
    by simp
qed

lemma high_threshold_110: "rnd (492918979215700785 / 4503599627370496) = 7701859050245325 / 70368744177664"
proof -
  have "rnd (492918979215700785 / 4503599627370496) = of_int (rint ((492918979215700785 / 4503599627370496) * 2 ^ (52 - 6))) / 2 ^ (52 - 6)"
    by (rule rnd_high) simp_all
  moreover have "rint ((492918979215700785 / 4503599627370496) * 2 ^ (52 - 6)) = 7701859050245325"
    by (rule rint_eval) simp_all
  ultimately show ?thesis
    by simp
qed

lemma stop_product_98: "rnd (439145999664897063 / 4503599627370496) = 6861656244764017 / 70368744177664"
proof -
  have "rnd (439145999664897063 / 4503599627370496) = of_int (rint ((439145999664897063 / 4503599627370496) * 2 ^ (52 - 6))) / 2 ^ (52 - 6)"
    by (rule rnd_high) simp_all
  moreover have "rint ((439145999664897063 / 4503599627370496) * 2 ^ (52 - 6)) = 6861656244764017"
    by (rule rint_eval) simp_all
  ultimately show ?thesis
    by simp
qed

lemma stop_product_108: "rnd (30551293972174599 / 281474976710656) = 3818911746521825 / 35184372088832"
proof -
  have "rnd (30551293972174599 / 281474976710656) = of_int (rint ((30551293972174599 / 281474976710656) * 2 ^ (52 - 6))) / 2 ^ (52 - 6)"
    by (rule rnd_high) simp_all
  moreover have "rint ((30551293972174599 / 281474976710656) * 2 ^ (52 - 6)) = 7637823493043650"
    by (rule rint_eval) simp_all
  ultimately show ?thesis
    by simp
qed

lemma volume_threshold_8000: "rnd (1013309916158361625 / 70368744177664) = 14400"
proof -
  have "rnd (1013309916158361625 / 70368744177664) = of_int (rint ((1013309916158361625 / 70368744177664) * 2 ^ (52 - 13))) / 2 ^ (52 - 13)"
    by (rule rnd_high) simp_all
  moreover have "rint ((1013309916158361625 / 70368744177664) * 2 ^ (52 - 13)) = 7916483719987200"
    by (rule rint_eval) simp_all
  ultimately show ?thesis
    by simp
qed

lemma mean_305_9: "rnd (305 / 9) = 1192359276343751 / 35184372088832"
proof -
  have "rnd (305 / 9) = of_int (rint ((305 / 9) * 2 ^ (52 - 5))) / 2 ^ (52 - 5)"
    by (rule rnd_high) simp_all
  moreover have "rint ((305 / 9) * 2 ^ (52 - 5)) = 4769437105375004"
    by (rule rint_eval) simp_all
  ultimately show ?thesis
    by simp
qed

lemma volume_threshold_305_9: "rnd (9665835826740248524164291735643 / 158456325028528675187087900672) = 8584986789675007 / 140737488355328"
proof -
  have "rnd (9665835826740248524164291735643 / 158456325028528675187087900672) = of_int (rint ((9665835826740248524164291735643 / 158456325028528675187087900672) * 2 ^ (52 - 5))) / 2 ^ (52 - 5)"
    by (rule rnd_high) simp_all
  moreover have "rint ((9665835826740248524164291735643 / 158456325028528675187087900672) * 2 ^ (52 - 5)) = 8584986789675007"
    by (rule rint_eval) simp_all
  ultimately show ?thesis
    by simp
qed

lemma rnd_98_3: "rnd (983 / 10) = 6917247552664371 / 70368744177664"
proof -
  have "rnd (983 / 10) = of_int (rint ((983 / 10) * 2 ^ (52 - 6))) / 2 ^ (52 - 6)"
    by (rule rnd_high) simp_all
  moreover have "rint ((983 / 10) * 2 ^ (52 - 6)) = 6917247552664371"
    by (rule rint_eval) simp_all
  ultimately show ?thesis
    by simp
qed

lemma scaled_stop_98: "rnd (171541406119100425 / 17592186044416) = 9751"
proof -
  have "rnd (171541406119100425 / 17592186044416) = of_int (rint ((171541406119100425 / 17592186044416) * 2 ^ (52 - 13))) / 2 ^ (52 - 13)"
    by (rule rnd_high) simp_all
  moreover have "rint ((171541406119100425 / 17592186044416) * 2 ^ (52 - 13)) = 5360668941221888"
    by (rule rint_eval) simp_all
  ultimately show ?thesis
    by simp
qed

lemma rint_stop_98: "rint (9751) = 9751"
  by simp

lemma scaled_stop_108: "rnd (95472793663045625 / 8796093022208) = 10854"
proof -
  have "rnd (95472793663045625 / 8796093022208) = of_int (rint ((95472793663045625 / 8796093022208) * 2 ^ (52 - 13))) / 2 ^ (52 - 13)"
    by (rule rnd_high) simp_all
  moreover have "rint ((95472793663045625 / 8796093022208) * 2 ^ (52 - 13)) = 5967049603940352"
    by (rule rint_eval) simp_all
  ultimately show ?thesis
    by simp
qed

lemma rint_stop_108: "rint (10854) = 10854"
  by simp

lemma scaled_vwap: "rnd (61225 / 6) = 5609799950882133 / 549755813888"
proof -
  have "rnd (61225 / 6) = of_int (rint ((61225 / 6) * 2 ^ (52 - 13))) / 2 ^ (52 - 13)"
    by (rule rnd_high) simp_all
  moreover have "rint ((61225 / 6) * 2 ^ (52 - 13)) = 5609799950882133"
    by (rule rint_eval) simp_all
  ultimately show ?thesis
    by simp
qed

lemma rint_vwap: "rint (5609799950882133 / 549755813888) = 10204"
  by (rule rint_eval) simp_all

lemma scaled_107_125: "rnd (21425 / 2) = 21425 / 2"
proof -
  have "rnd (21425 / 2) = of_int (rint ((21425 / 2) * 2 ^ (52 - 13))) / 2 ^ (52 - 13)"
    by (rule rnd_high) simp_all
  moreover have "rint ((21425 / 2) * 2 ^ (52 - 13)) = 5889259156275200"
    by simp
  ultimately show ?thesis
    by simp
qed

lemma rint_107_125: "rint (21425 / 2) = 10712"
  by (simp add: rint_def Let_def)

lemma rnd_1_055: "rnd (211 / 200) = 4751297606875873 / 4503599627370496"
proof -
  have "rnd (211 / 200) = of_int (rint ((211 / 200) * 2 ^ (52 - 0))) / 2 ^ (52 - 0)"
    by (rule rnd_high) simp_all
  moreover have "rint ((211 / 200) * 2 ^ (52 - 0)) = 4751297606875873"
    by (rule rint_eval) simp_all
  ultimately show ?thesis
    by simp
qed

lemma scaled_1_055: "rnd (118782440171896825 / 1125899906842624) = 211 / 2"
proof -
  have "rnd (118782440171896825 / 1125899906842624) = of_int (rint ((118782440171896825 / 1125899906842624) * 2 ^ (52 - 6))) / 2 ^ (52 - 6)"
    by (rule rnd_high) simp_all
  moreover have "rint ((118782440171896825 / 1125899906842624) * 2 ^ (52 - 6)) = 7423902510743552"
    by (rule rint_eval) simp_all
  ultimately show ?thesis
    by simp
qed

lemma rint_1_055: "rint (211 / 2) = 106"
  by (simp add: rint_def Let_def)

lemmas rnd_values = rnd_1_005 rnd_0_995 rnd_1_8 low_threshold_98 low_threshold_100 low_threshold_50 high_threshold_107 high_threshold_108 high_threshold_110 stop_product_98 stop_product_108 volume_threshold_8000 mean_305_9 volume_threshold_305_9 rnd_98_3 scaled_stop_98 scaled_stop_108 scaled_vwap scaled_107_125

lemmas rint_values = rint_stop_98 rint_stop_108 rint_vwap rint_107_125

subsection \<open>The volume-weighted average price\<close>







subsection \<open>The detector\<close>

lemma diff_nonempty: "xs \<noteq> [] \<Longrightarrow> diff xs \<noteq> []"
  by (cases xs) (simp_all add: diff_def)

lemma calculate_confidence_returns:
  assumes "df \<noteq> []"
  shows "\<exists>c. calculate_confidence pos df direction = Inr c"
proof -
  from assms have "diff (map (\<lambda>b. np_log (Close b)) df) \<noteq> []"
    by (intro diff_nonempty) simp
  then show ?thesis
    by (simp add: calculate_confidence_def iloc_last_def Let_def)
qed

lemma diff_Cons_NaN: "xs \<noteq> [] \<Longrightarrow> NaN \<in> set (diff xs)"
  by (cases xs) (simp_all add: diff_def)

lemma calculate_confidence_scipy:
  assumes "df \<noteq> []"
  shows "calculate_confidence percentileofscore df direction = Inr NaN"
proof -
  from assms have ne: "map (\<lambda>b. np_log (Close b)) df \<noteq> []" by simp
  have "percentileofscore (diff (map (\<lambda>b. np_log (Close b)) df)) x = NaN" for x
    using diff_Cons_NaN [OF ne] by (simp add: percentileofscore_def)
  then show ?thesis
    using diff_nonempty [OF ne]
    by (simp add: calculate_confidence_def iloc_last_def Let_def fl_sub_def)
qed

lemma percentileofscore_range:
  "percentileofscore a x = NaN \<or> (\<exists>p. percentileofscore a x = Fin p \<and> 0 \<le> p \<and> p \<le> 100)"
proof (cases "NaN \<in> set a \<or> x = NaN \<or> a = []")
  case True
  then show ?thesis by (auto simp: percentileofscore_def)
next
  case False
  define left where "left = length (filter (\<lambda>y. fl_less y x) a)"
  define right where "right = length (filter (\<lambda>y. fl_le y x) a)"
  define n where "n = length a"
  have imp: "fl_less y x \<Longrightarrow> fl_le y x" for y
    by (cases y; cases x) simp_all
  have "left \<le> right"
    unfolding left_def right_def
    using imp by (induction a) auto
  moreover have "right \<le> n"
    unfolding right_def n_def by simp
  ultimately have b: "left + right + (if left < right then 1 else 0) \<le> 2 * n"
    by auto
  from False have n0: "0 < n" by (simp add: n_def)
  have "real (left + right + (if left < right then 1 else 0)) * (50 / real n)
          \<le> real (2 * n) * (50 / real n)"
    using b n0 by (intro mult_right_mono) (simp_all only: of_nat_le_iff, simp)
  also have "\<dots> = 100" using n0 by simp
  finally have u: "real (left + right + (if left < right then 1 else 0)) * (50 / real n) \<le> 100" .
  have v: "0 \<le> real (left + right + (if left < right then 1 else 0)) * (50 / real n)"
    by simp
  from False u v show ?thesis
    by (simp add: percentileofscore_def Let_def left_def right_def n_def)
qed

lemma detect_stop_hunt_on_eq:
  assumes "intraday \<noteq> []"
      and "calculate_confidence pos intraday ''down'' = Inr cd"
      and "calculate_confidence pos intraday ''up'' = Inr cu"
  shows "detect_stop_hunt_on pos intraday lz =
           Inr ((if bear_condition (last intraday) intraday lz
                 then [bear_signal (last intraday) lz cd] else [])
                @ (if bull_condition (last intraday) intraday lz
                   then [bull_signal (last intraday) lz cu] else []))"
  using assms by (simp add: detect_stop_hunt_on_def iloc_last_def)

lemma detect_stop_hunt_eq:
  assumes "get_data src ticker ''1d'' ''5m'' = Some intraday"
      and "get_data src ticker ''20d'' ''1d'' = Some data"
  shows "detect_stop_hunt pos src st ticker =
           (detect_stop_hunt_on pos intraday (zone_of data), st(ticker \<mapsto> zone_of data))"
  using assms by (simp add: detect_stop_hunt_def identify_liquidity_pools_def)

lemma detect_stop_hunt_returns:
  "\<exists>sigs. fst (detect_stop_hunt pos src st ticker) = Inr sigs
     \<and> (sigs = [] \<or> (\<exists>intraday data. intraday \<noteq> []
           \<and> get_data src ticker ''1d'' ''5m'' = Some intraday
           \<and> get_data src ticker ''20d'' ''1d'' = Some data
           \<and> detect_stop_hunt_on pos intraday (zone_of data) = Inr sigs))"
proof (cases "get_data src ticker ''1d'' ''5m''")
  case None
  then show ?thesis by (simp add: detect_stop_hunt_def)
next
  case (Some intraday)
  then have ne: "intraday \<noteq> []"
    by (auto simp: get_data_def split: option.splits if_splits)
  show ?thesis
  proof (cases "get_data src ticker ''20d'' ''1d''")
    case None
    with Some show ?thesis
      by (simp add: detect_stop_hunt_def identify_liquidity_pools_def)
  next
    case (Some data)
    obtain cd where cd: "calculate_confidence pos intraday ''down'' = Inr cd"
      using calculate_confidence_returns [OF ne] by blast
    obtain cu where cu: "calculate_confidence pos intraday ''up'' = Inr cu"
      using calculate_confidence_returns [OF ne] by blast
    from detect_stop_hunt_on_eq [OF ne cd cu, of "zone_of data"]
    obtain sigs where "detect_stop_hunt_on pos intraday (zone_of data) = Inr sigs" by blast
    with \<open>get_data src ticker ''1d'' ''5m'' = Some intraday\<close> Some ne show ?thesis
      by (simp add: detect_stop_hunt_eq)
  qed
qed

lemma get_data_scenario:
  "get_data scenario_source ''B'' ''1d'' ''5m'' = Some scenario_B_intraday"
  "get_data scenario_source ''B'' ''20d'' ''1d'' = Some scenario_window"
  "get_data scenario_source ''A'' ''1d'' ''5m'' = Some scenario_window"
  "get_data scenario_source ''A'' ''20d'' ''1d'' = Some scenario_window"
  by (simp_all add: get_data_def scenario_source_def scenario_window_def scenario_B_intraday_def)

lemma zone_of_scenario_window:
  "recent_low (zone_of scenario_window) = 98"
  "recent_high (zone_of scenario_window) = 107"
  "vwap (zone_of scenario_window) = Fin (2449 / 24)"
  by (simp_all add: zone_of_def scenario_window_def calculate_vwap_def)

lemma round2_values:
  "round2 99 = 99" "round2 (rnd (98 * rnd 0.995)) = 97.51" "round2 (2449 / 24) = 102.04"
  "round2 (rnd (108 * rnd 1.005)) = 108.54" "round2 102 = 102" "round2 105 = 105"
  "round2 107.125 = 107.12"
  by (simp_all add: round2_def rnd_values rint_values rnd_numeral)

lemma scenario_B_conditions:
  "bear_condition (last scenario_B_intraday) scenario_B_intraday (zone_of scenario_window)"
  "\<not> bull_condition (last scenario_B_intraday) scenario_B_intraday (zone_of scenario_window)"
  by (simp_all add: bear_condition_def bull_condition_def zone_of_scenario_window series_mean_def
        scenario_B_intraday_def rnd_values rnd_numeral)

lemma scenario_B_run:
  "\<exists>c. detect_stop_hunt pos scenario_source st ''B'' =
     (Inr [\<lparr>sig_type = ''bear_trap'', entry = 99, stop = 97.51, target = Fin 102.04,
            confidence = c\<rparr>], st(''B'' \<mapsto> zone_of scenario_window))"
proof -
  have ne: "scenario_B_intraday \<noteq> []" by (simp add: scenario_B_intraday_def)
  obtain cd where cd: "calculate_confidence pos scenario_B_intraday ''down'' = Inr cd"
    using calculate_confidence_returns [OF ne] by blast
  obtain cu where cu: "calculate_confidence pos scenario_B_intraday ''up'' = Inr cu"
    using calculate_confidence_returns [OF ne] by blast
  have l: "Close (last scenario_B_intraday) = 99" by (simp add: scenario_B_intraday_def)
  show ?thesis
    by (simp add: detect_stop_hunt_eq [OF get_data_scenario(1,2)]
        detect_stop_hunt_on_eq [OF ne cd cu] scenario_B_conditions bear_signal_def
        zone_of_scenario_window l round2_values [simplified])
qed

lemma confidence_value_range:
  assumes "\<forall>a x. pos a x = NaN \<or> (\<exists>p. pos a x = Fin p \<and> 0 \<le> p \<and> p \<le> 100)"
      and "calculate_confidence pos df direction = Inr c"
  shows "\<exists>q. py_min (Fin 90) (fl_rnd (fl_mul c (Fin 100))) = Fin q \<and> 0 \<le> q \<and> q \<le> 90"
proof -
  define returns where "returns = diff (map (\<lambda>b. np_log (Close b)) df)"
  from assms(2) have ne: "returns \<noteq> []"
    by (auto simp: calculate_confidence_def iloc_last_def Let_def returns_def split: if_splits)
  from assms(1) have
    "pos returns (last returns) = NaN
       \<or> (\<exists>p. pos returns (last returns) = Fin p \<and> 0 \<le> p \<and> p \<le> 100)"
    by blast
  then show ?thesis
  proof
    assume "pos returns (last returns) = NaN"
    with assms(2) ne have "c = NaN"
      by (auto simp: calculate_confidence_def iloc_last_def Let_def fl_sub_def
          simp flip: returns_def split: if_splits)
    then show ?thesis by (simp add: py_min_def)
  next
    assume "\<exists>p. pos returns (last returns) = Fin p \<and> 0 \<le> p \<and> p \<le> 100"
    then obtain p where p: "pos returns (last returns) = Fin p" "0 \<le> p" "p \<le> 100" by blast
    with assms(2) ne have "c = Fin (p / 100) \<or> c = Fin (1 - p / 100)"
      by (auto simp: calculate_confidence_def iloc_last_def Let_def fl_sub_def
          simp flip: returns_def split: if_splits)
    with p(2,3) have "\<exists>x. c = Fin x \<and> 0 \<le> x"
    proof (elim disjE)
      assume "c = Fin (p / 100)"
      with p(2) show ?thesis by (intro exI [of _ "p / 100"]) simp
    next
      assume "c = Fin (1 - p / 100)"
      with p(3) show ?thesis by (intro exI [of _ "1 - p / 100"]) simp
    qed
    then obtain x where x: "c = Fin x" "0 \<le> x" by blast
    then have "0 \<le> rnd (x * 100)" by (intro rnd_nonneg) simp
    with x(1) show ?thesis by (auto simp: py_min_def)
  qed
qed

text \<open>The confidence of a signal, written out: Python's \<open>min\<close> of 90 and the double product.\<close>

lemma confidence_written_out:
  "py_min (Fin 90) (fl_rnd (fl_mul c (Fin 100))) =
     (case c of
        Fin x \<Rightarrow> if rnd (x * 100) < 90 then Fin (rnd (x * 100)) else Fin 90
      | MInf \<Rightarrow> MInf
      | PInf \<Rightarrow> Fin 90
      | NaN \<Rightarrow> Fin 90)"
  by (cases c) (simp_all add: py_min_def inf_of_sign_def)

lemma detect_stop_hunt_on_confidence:
  assumes pos: "\<forall>a x. pos a x = NaN \<or> (\<exists>p. pos a x = Fin p \<and> 0 \<le> p \<and> p \<le> 100)"
      and run: "detect_stop_hunt_on pos intraday lz = Inr sigs"
      and s: "s \<in> set sigs"
  shows "\<exists>q. confidence s = Fin q \<and> 0 \<le> q \<and> q \<le> 90"
proof -
  from run have ne: "intraday \<noteq> []"
    by (auto simp: detect_stop_hunt_on_def iloc_last_def split: if_splits)
  obtain cd where cd: "calculate_confidence pos intraday ''down'' = Inr cd"
    using calculate_confidence_returns [OF ne] by blast
  obtain cu where cu: "calculate_confidence pos intraday ''up'' = Inr cu"
    using calculate_confidence_returns [OF ne] by blast
  from run s have "s = bear_signal (last intraday) lz cd \<or> s = bull_signal (last intraday) lz cu"
    by (auto simp: detect_stop_hunt_on_eq [OF ne cd cu] split: if_splits)
  then show ?thesis
    using confidence_value_range [OF pos cd] confidence_value_range [OF pos cu]
    by (auto simp: bear_signal_def bull_signal_def)
qed

lemma edge_conditions:
  "\<not> bear_condition (last edge_intraday) edge_intraday edge_zone"
  "\<not> bull_condition (last edge_intraday) edge_intraday edge_zone"
  by (simp_all add: bear_condition_def bull_condition_def edge_zone_def series_mean_def
        edge_intraday_def rnd_values rnd_numeral)

lemma tie_conditions:
  "\<not> bear_condition (last tie_intraday) tie_intraday tie_zone"
  "bull_condition (last tie_intraday) tie_intraday tie_zone"
  by (simp_all add: bear_condition_def bull_condition_def tie_zone_def series_mean_def
        tie_intraday_def rnd_values rnd_numeral)

text \<open>
  Claim C1 states the three comparisons and the stop with products of real numbers. The
  code takes them in doubles: for \<open>recent_low = 100\<close> the double product \<open>100 * 1.005\<close> is
  below 100.5. A latest bar with \<open>Low = 100.5\<close>, a close above 100 and a volume above 1.8
  times the mean meets the three comparisons as the claim writes them, and the detection
  returns no signal.
\<close>

theorem bear_trap_counterexample:
  "Low (last edge_intraday) \<le> recent_low edge_zone * 1.005
   \<and> Close (last edge_intraday) > recent_low edge_zone
   \<and> Volume (last edge_intraday)
        > sum_list (map Volume edge_intraday) / real (length edge_intraday) * 1.8
   \<and> detect_stop_hunt_on percentileofscore edge_intraday edge_zone = Inr []"
proof -
  have ne: "edge_intraday \<noteq> []" by (simp add: edge_intraday_def)
  have "detect_stop_hunt_on percentileofscore edge_intraday edge_zone = Inr []"
    by (simp add: detect_stop_hunt_on_eq [OF ne calculate_confidence_scipy [OF ne]
          calculate_confidence_scipy [OF ne]] edge_conditions)
  then show ?thesis
    by (simp add: edge_intraday_def edge_zone_def)
qed

text \<open>
  Claim C1, as the code has it. With every product taken in doubles (\<open>rnd\<close> of the exact
  product, the literals being the doubles of \<open>1.005\<close>, \<open>1.8\<close> and \<open>0.995\<close>, the mean being
  the double quotient of the volume sum and the length): on a non-empty intraday frame
  and any zone the detection returns a list of signals, and a \<open>bear_trap\<close> signal is in it
  exactly when the latest bar has \<open>Low \<le> recent_low * 1.005\<close>, \<open>Close > recent_low\<close> and
  a volume above 1.8 times the mean volume of the frame. There is at most one, and it
  has as entry the latest close, as stop \<open>recent_low * 0.995\<close> and as target the zone's
  VWAP, each rounded to two decimals the way NumPy does (the double product with 100
  rounded to the nearest integer, over 100), and as confidence Python's \<open>min\<close> of 90 and
  100 times the value of \<open>_calculate_confidence\<close> for \<open>down\<close>, which is 90 when that value
  is NaN. In scenario B the method returns exactly one signal, a bear trap with stop
  97.51.
\<close>

theorem bear_trap_spec:
  "(intraday \<noteq> [] \<longrightarrow>
      (\<exists>sigs c. detect_stop_hunt_on pos intraday lz = Inr sigs
           \<and> calculate_confidence pos intraday ''down'' = Inr c
           \<and> ((\<exists>s\<in>set sigs. sig_type s = ''bear_trap'') \<longleftrightarrow>
                Low (last intraday) \<le> rnd (recent_low lz * rnd 1.005)
                \<and> Close (last intraday) > recent_low lz
                \<and> Volume (last intraday)
                    > rnd (rnd (sum_list (map Volume intraday) / real (length intraday))
                           * rnd 1.8))
           \<and> length (filter (\<lambda>s. sig_type s = ''bear_trap'') sigs) \<le> 1
           \<and> (\<forall>s\<in>set sigs. sig_type s = ''bear_trap'' \<longrightarrow>
                entry s = of_int (rint (rnd (Close (last intraday) * 100))) / 100
                \<and> stop s = of_int (rint (rnd (rnd (recent_low lz * rnd 0.995) * 100))) / 100
                \<and> target s =
                    (case vwap lz of
                       Fin v \<Rightarrow> Fin (of_int (rint (rnd (v * 100))) / 100)
                     | other \<Rightarrow> other)
                \<and> confidence s =
                    (case c of
                       Fin x \<Rightarrow> if rnd (x * 100) < 90 then Fin (rnd (x * 100)) else Fin 90
                     | MInf \<Rightarrow> MInf
                     | PInf \<Rightarrow> Fin 90
                     | NaN \<Rightarrow> Fin 90))))
   \<and> (\<exists>c. detect_stop_hunt pos scenario_source st ''B'' =
          (Inr [\<lparr>sig_type = ''bear_trap'', entry = 99, stop = 97.51, target = Fin 102.04,
                 confidence = c\<rparr>], st(''B'' \<mapsto> zone_of scenario_window)))"
proof (intro conjI impI)
  assume ne: "intraday \<noteq> []"
  obtain cd where cd: "calculate_confidence pos intraday ''down'' = Inr cd"
    using calculate_confidence_returns [OF ne] by blast
  obtain cu where cu: "calculate_confidence pos intraday ''up'' = Inr cu"
    using calculate_confidence_returns [OF ne] by blast
  note eq = detect_stop_hunt_on_eq [OF ne cd cu, of lz]
  have t: "fl_round2 (vwap lz) =
             (case vwap lz of
                Fin v \<Rightarrow> Fin (of_int (rint (rnd (v * 100))) / 100)
              | other \<Rightarrow> other)"
    by (cases "vwap lz") (simp_all add: round2_def)
  show "\<exists>sigs c. detect_stop_hunt_on pos intraday lz = Inr sigs
           \<and> calculate_confidence pos intraday ''down'' = Inr c
           \<and> ((\<exists>s\<in>set sigs. sig_type s = ''bear_trap'') \<longleftrightarrow>
                Low (last intraday) \<le> rnd (recent_low lz * rnd 1.005)
                \<and> Close (last intraday) > recent_low lz
                \<and> Volume (last intraday)
                    > rnd (rnd (sum_list (map Volume intraday) / real (length intraday))
                           * rnd 1.8))
           \<and> length (filter (\<lambda>s. sig_type s = ''bear_trap'') sigs) \<le> 1
           \<and> (\<forall>s\<in>set sigs. sig_type s = ''bear_trap'' \<longrightarrow>
                entry s = of_int (rint (rnd (Close (last intraday) * 100))) / 100
                \<and> stop s = of_int (rint (rnd (rnd (recent_low lz * rnd 0.995) * 100))) / 100
                \<and> target s =
                    (case vwap lz of
                       Fin v \<Rightarrow> Fin (of_int (rint (rnd (v * 100))) / 100)
                     | other \<Rightarrow> other)
                \<and> confidence s =
                    (case c of
                       Fin x \<Rightarrow> if rnd (x * 100) < 90 then Fin (rnd (x * 100)) else Fin 90
                     | MInf \<Rightarrow> MInf
                     | PInf \<Rightarrow> Fin 90
                     | NaN \<Rightarrow> Fin 90))"
    apply (rule exI, rule exI [of _ cd], intro conjI)
        apply (rule eq)
       apply (rule cd)
      apply (auto simp: bear_condition_def series_mean_def bear_signal_def bull_signal_def
        round2_def t confidence_written_out)
    done
next
  show "\<exists>c. detect_stop_hunt pos scenario_source st ''B'' =
          (Inr [\<lparr>sig_type = ''bear_trap'', entry = 99, stop = 97.51, target = Fin 102.04,
                 confidence = c\<rparr>], st(''B'' \<mapsto> zone_of scenario_window))"
    by (rule scenario_B_run)
qed

theorem bear_trap_spec_witness:
  "scenario_B_intraday \<noteq> []
   \<and> detect_stop_hunt_on percentileofscore scenario_B_intraday (zone_of scenario_window) =
       Inr [\<lparr>sig_type = ''bear_trap'', entry = 99, stop = 97.51, target = Fin 102.04,
              confidence = Fin 90\<rparr>]"
proof -
  have ne: "scenario_B_intraday \<noteq> []" by (simp add: scenario_B_intraday_def)
  have l: "Close (last scenario_B_intraday) = 99" by (simp add: scenario_B_intraday_def)
  have run: "detect_stop_hunt_on percentileofscore scenario_B_intraday (zone_of scenario_window) =
       Inr [\<lparr>sig_type = ''bear_trap'', entry = 99, stop = 97.51, target = Fin 102.04,
              confidence = Fin 90\<rparr>]"
    by (simp add: detect_stop_hunt_on_eq [OF ne calculate_confidence_scipy [OF ne]
          calculate_confidence_scipy [OF ne]] scenario_B_conditions bear_signal_def l
        py_min_def round2_values [simplified] zone_of_scenario_window)
  show ?thesis
    using bear_trap_spec [of scenario_B_intraday percentileofscore "zone_of scenario_window"]
      ne run by blast
qed

text \<open>
  Claim C5 states the volume comparison with a product of real numbers, and the entry
  as the latest close itself. On nine bars with volume mean \<open>305 / 9\<close> the latest volume
  61 is not above 1.8 times the mean; the double product is below 61 and the detection
  emits a bull trap. Its entry is the close 107.125 rounded to 107.12.
\<close>

theorem bull_trap_counterexample:
  "\<not> Volume (last tie_intraday)
        > sum_list (map Volume tie_intraday) / real (length tie_intraday) * 1.8
   \<and> Close (last tie_intraday) = 107.125
   \<and> detect_stop_hunt_on percentileofscore tie_intraday tie_zone =
       Inr [\<lparr>sig_type = ''bull_trap'', entry = 107.12, stop = 108.54, target = Fin 105,
              confidence = Fin 90\<rparr>]"
proof -
  have ne: "tie_intraday \<noteq> []" by (simp add: tie_intraday_def)
  have l: "Close (last tie_intraday) = 107.125" by (simp add: tie_intraday_def)
  have z: "recent_high tie_zone = 108" "vwap tie_zone = Fin 105"
    by (simp_all add: tie_zone_def)
  have "detect_stop_hunt_on percentileofscore tie_intraday tie_zone =
       Inr [\<lparr>sig_type = ''bull_trap'', entry = 107.12, stop = 108.54, target = Fin 105,
              confidence = Fin 90\<rparr>]"
    by (simp add: detect_stop_hunt_on_eq [OF ne calculate_confidence_scipy [OF ne]
          calculate_confidence_scipy [OF ne]] tie_conditions bull_signal_def l z
        py_min_def round2_values [simplified])
  then show ?thesis
    by (simp add: l) (simp add: tie_intraday_def)
qed

text \<open>
  Claim C5, as the code has it. With every product taken in doubles, as for the bear
  trap: on a non-empty intraday frame and any zone the detection returns a list of
  signals whose length is the number of the two conditions that hold, each counted on
  its own; so it has 0, 1 or 2 elements, and so has the result of the whole method. A
  \<open>bull_trap\<close> signal is in it exactly when the latest bar has
  \<open>High \<ge> recent_high * 0.995\<close>, \<open>Close < recent_high\<close> and a volume above 1.8 times the
  mean volume. It has as entry the latest close, as stop \<open>recent_high * 1.005\<close> and as
  target the zone's VWAP, each rounded to two decimals the way NumPy does, and as
  confidence Python's \<open>min\<close> of 90 and 100 times the value of \<open>_calculate_confidence\<close> for
  \<open>up\<close>, which is 90 when that value is NaN.
\<close>

theorem bull_trap_spec:
  assumes "intraday \<noteq> []"
  shows "\<exists>sigs c. detect_stop_hunt_on pos intraday lz = Inr sigs
           \<and> calculate_confidence pos intraday ''up'' = Inr c
           \<and> length sigs =
               (if Low (last intraday) \<le> rnd (recent_low lz * rnd 1.005)
                   \<and> Close (last intraday) > recent_low lz
                   \<and> Volume (last intraday)
                       > rnd (rnd (sum_list (map Volume intraday) / real (length intraday))
                              * rnd 1.8)
                then 1 else 0)
               + (if High (last intraday) \<ge> rnd (recent_high lz * rnd 0.995)
                     \<and> Close (last intraday) < recent_high lz
                     \<and> Volume (last intraday)
                         > rnd (rnd (sum_list (map Volume intraday) / real (length intraday))
                                * rnd 1.8)
                  then 1 else 0)
           \<and> length sigs \<le> 2
           \<and> ((\<exists>s\<in>set sigs. sig_type s = ''bull_trap'') \<longleftrightarrow>
                High (last intraday) \<ge> rnd (recent_high lz * rnd 0.995)
                \<and> Close (last intraday) < recent_high lz
                \<and> Volume (last intraday)
                    > rnd (rnd (sum_list (map Volume intraday) / real (length intraday))
                           * rnd 1.8))
           \<and> (\<forall>s\<in>set sigs. sig_type s = ''bull_trap'' \<longrightarrow>
                entry s = of_int (rint (rnd (Close (last intraday) * 100))) / 100
                \<and> stop s = of_int (rint (rnd (rnd (recent_high lz * rnd 1.005) * 100))) / 100
                \<and> target s =
                    (case vwap lz of
                       Fin v \<Rightarrow> Fin (of_int (rint (rnd (v * 100))) / 100)
                     | other \<Rightarrow> other)
                \<and> confidence s =
                    (case c of
                       Fin x \<Rightarrow> if rnd (x * 100) < 90 then Fin (rnd (x * 100)) else Fin 90
                     | MInf \<Rightarrow> MInf
                     | PInf \<Rightarrow> Fin 90
                     | NaN \<Rightarrow> Fin 90))
           \<and> (\<exists>sigs'. fst (detect_stop_hunt pos src st ticker) = Inr sigs' \<and> length sigs' \<le> 2)"
proof -
  obtain cd where cd: "calculate_confidence pos intraday ''down'' = Inr cd"
    using calculate_confidence_returns [OF assms] by blast
  obtain cu where cu: "calculate_confidence pos intraday ''up'' = Inr cu"
    using calculate_confidence_returns [OF assms] by blast
  note eq = detect_stop_hunt_on_eq [OF assms cd cu, of lz]
  have t: "fl_round2 (vwap lz) =
             (case vwap lz of
                Fin v \<Rightarrow> Fin (of_int (rint (rnd (v * 100))) / 100)
              | other \<Rightarrow> other)"
    by (cases "vwap lz") (simp_all add: round2_def)
  have whole: "\<exists>sigs'. fst (detect_stop_hunt pos src st ticker) = Inr sigs' \<and> length sigs' \<le> 2"
  proof -
    obtain sigs' where s: "fst (detect_stop_hunt pos src st ticker) = Inr sigs'"
      and d: "sigs' = [] \<or> (\<exists>intraday data. intraday \<noteq> []
           \<and> get_data src ticker ''1d'' ''5m'' = Some intraday
           \<and> get_data src ticker ''20d'' ''1d'' = Some data
           \<and> detect_stop_hunt_on pos intraday (zone_of data) = Inr sigs')"
      using detect_stop_hunt_returns [of pos src st ticker] by blast
    from d have "length sigs' \<le> 2"
    proof
      assume "sigs' = []" then show ?thesis by simp
    next
      assume "\<exists>intraday data. intraday \<noteq> []
           \<and> get_data src ticker ''1d'' ''5m'' = Some intraday
           \<and> get_data src ticker ''20d'' ''1d'' = Some data
           \<and> detect_stop_hunt_on pos intraday (zone_of data) = Inr sigs'"
      then obtain i d where ne: "i \<noteq> []" and r: "detect_stop_hunt_on pos i (zone_of d) = Inr sigs'"
        by blast
      obtain cd' where cd': "calculate_confidence pos i ''down'' = Inr cd'"
        using calculate_confidence_returns [OF ne] by blast
      obtain cu' where cu': "calculate_confidence pos i ''up'' = Inr cu'"
        using calculate_confidence_returns [OF ne] by blast
      from r show ?thesis
        by (simp add: detect_stop_hunt_on_eq [OF ne cd' cu'] split: if_splits) auto
    qed
    with s show ?thesis by blast
  qed
  show ?thesis
    apply (rule exI, rule exI [of _ cu], intro conjI)
          apply (rule eq)
         apply (rule cu)
        apply (simp add: bear_condition_def bull_condition_def series_mean_def)
       apply simp
      apply (auto simp: bull_condition_def series_mean_def bear_signal_def bull_signal_def
        round2_def t confidence_written_out)[2]
    apply (rule whole)
    done
qed

theorem bull_trap_spec_witness:
  "both_traps_intraday \<noteq> []
   \<and> detect_stop_hunt_on percentileofscore both_traps_intraday both_traps_zone =
       Inr [\<lparr>sig_type = ''bear_trap'', entry = 99, stop = 97.51, target = Fin 102,
              confidence = Fin 90\<rparr>,
            \<lparr>sig_type = ''bull_trap'', entry = 99, stop = 108.54, target = Fin 102,
              confidence = Fin 90\<rparr>]"
proof -
  have ne: "both_traps_intraday \<noteq> []" by (simp add: both_traps_intraday_def)
  have c: "bear_condition (last both_traps_intraday) both_traps_intraday both_traps_zone"
    "bull_condition (last both_traps_intraday) both_traps_intraday both_traps_zone"
    by (simp_all add: bear_condition_def bull_condition_def both_traps_zone_def series_mean_def
        both_traps_intraday_def rnd_values rnd_numeral)
  have l: "Close (last both_traps_intraday) = 99" by (simp add: both_traps_intraday_def)
  have z: "recent_low both_traps_zone = 98" "recent_high both_traps_zone = 108"
    "vwap both_traps_zone = Fin 102"
    by (simp_all add: both_traps_zone_def)
  have run: "detect_stop_hunt_on percentileofscore both_traps_intraday both_traps_zone =
       Inr [\<lparr>sig_type = ''bear_trap'', entry = 99, stop = 97.51, target = Fin 102,
              confidence = Fin 90\<rparr>,
            \<lparr>sig_type = ''bull_trap'', entry = 99, stop = 108.54, target = Fin 102,
              confidence = Fin 90\<rparr>]"
    by (simp add: detect_stop_hunt_on_eq [OF ne calculate_confidence_scipy [OF ne]
          calculate_confidence_scipy [OF ne]] c bear_signal_def bull_signal_def l
        py_min_def round2_values [simplified] z)
  show ?thesis
    using bull_trap_spec [OF ne, of percentileofscore both_traps_zone] ne run by blast
qed

text \<open>
  Claim C7. Let the percentile function give NaN or a number from 0 to 100, as
  \<open>percentileofscore\<close> does. Then the confidence of every signal that the detection
  emits, on any frame and zone and also through the whole method, is a number from 0 to
  90.
\<close>

theorem confidence_range:
  assumes "\<forall>a x. pos a x = NaN \<or> (\<exists>p. pos a x = Fin p \<and> 0 \<le> p \<and> p \<le> 100)"
  shows "(detect_stop_hunt_on pos intraday lz = Inr sigs \<and> s \<in> set sigs \<longrightarrow>
            (\<exists>q. confidence s = Fin q \<and> 0 \<le> q \<and> q \<le> 90))
       \<and> (fst (detect_stop_hunt pos src st ticker) = Inr sigs' \<and> s' \<in> set sigs' \<longrightarrow>
            (\<exists>q. confidence s' = Fin q \<and> 0 \<le> q \<and> q \<le> 90))"
proof (intro conjI impI)
  assume "detect_stop_hunt_on pos intraday lz = Inr sigs \<and> s \<in> set sigs"
  then show "\<exists>q. confidence s = Fin q \<and> 0 \<le> q \<and> q \<le> 90"
    using detect_stop_hunt_on_confidence [OF assms] by blast
next
  assume a: "fst (detect_stop_hunt pos src st ticker) = Inr sigs' \<and> s' \<in> set sigs'"
  with detect_stop_hunt_returns [of pos src st ticker]
  obtain i d where "detect_stop_hunt_on pos i (zone_of d) = Inr sigs'" by auto
  with a show "\<exists>q. confidence s' = Fin q \<and> 0 \<le> q \<and> q \<le> 90"
    using detect_stop_hunt_on_confidence [OF assms] by blast
qed

theorem confidence_range_witness:
  "fst (detect_stop_hunt percentileofscore scenario_source Map.empty ''B'') =
     Inr [bear_signal (last scenario_B_intraday) (zone_of scenario_window) NaN]
   \<and> confidence (bear_signal (last scenario_B_intraday) (zone_of scenario_window) NaN) = Fin 90
   \<and> (\<exists>q. confidence (bear_signal (last scenario_B_intraday) (zone_of scenario_window) NaN)
            = Fin q \<and> 0 \<le> q \<and> q \<le> 90)"
proof -
  have ne: "scenario_B_intraday \<noteq> []" by (simp add: scenario_B_intraday_def)
  have run: "fst (detect_stop_hunt percentileofscore scenario_source Map.empty ''B'') =
     Inr [bear_signal (last scenario_B_intraday) (zone_of scenario_window) NaN]"
    by (simp add: detect_stop_hunt_eq [OF get_data_scenario(1,2)]
        detect_stop_hunt_on_eq [OF ne calculate_confidence_scipy [OF ne]
          calculate_confidence_scipy [OF ne]] scenario_B_conditions)
  have v: "confidence (bear_signal (last scenario_B_intraday) (zone_of scenario_window) NaN)
             = Fin 90"
    by (simp add: bear_signal_def py_min_def)
  have "\<forall>a x. percentileofscore a x = NaN
          \<or> (\<exists>p. percentileofscore a x = Fin p \<and> 0 \<le> p \<and> p \<le> 100)"
    using percentileofscore_range by blast
  from confidence_range [OF this, of scenario_B_intraday "zone_of scenario_window"
      "[bear_signal (last scenario_B_intraday) (zone_of scenario_window) NaN]"
      "bear_signal (last scenario_B_intraday) (zone_of scenario_window) NaN"
      scenario_source Map.empty "''B''"
      "[bear_signal (last scenario_B_intraday) (zone_of scenario_window) NaN]"
      "bear_signal (last scenario_B_intraday) (zone_of scenario_window) NaN"] run v
  show ?thesis by simp
qed

subsection \<open>The scorer on short frames\<close>

text \<open>
  Claim C3 says that on fewer than two bars the scorer fails with an error of its own,
  \<open>InsufficientData\<close>. The method has no such check. On a single bar the only return is
  the NaN that \<open>diff\<close> puts first, the percentile of NaN is NaN, and the method returns
  NaN without raising.
\<close>

theorem confidence_one_bar_counterexample:
  "calculate_confidence percentileofscore one_bar ''down'' = Inr NaN"
  by (simp add: calculate_confidence_scipy one_bar_def)

text \<open>
  Claim C3, as the code has it. On the empty frame \<open>_calculate_confidence\<close> raises
  \<open>IndexError\<close>, from reading the last return. On a frame of one bar it raises nothing:
  it returns the percentile of NaN in the sample \<open>[NaN]\<close> divided by 100 (for \<open>down\<close>),
  or one minus that, which with SciPy's function is NaN.
\<close>

theorem confidence_short_series:
  "calculate_confidence pos [] direction = Inl IndexError
   \<and> (length df = 1 \<longrightarrow>
        calculate_confidence pos df direction =
          Inr (if direction = ''down'' then fl_div (pos [NaN] NaN) (Fin 100)
               else fl_sub (Fin 1) (fl_div (pos [NaN] NaN) (Fin 100)))
        \<and> calculate_confidence percentileofscore df direction = Inr NaN)"
proof (intro conjI impI)
  show "calculate_confidence pos [] direction = Inl IndexError"
    by (simp add: calculate_confidence_def diff_def iloc_last_def)
next
  assume "length df = 1"
  then obtain b where df: "df = [b]" by (cases df) auto
  show "calculate_confidence pos df direction =
          Inr (if direction = ''down'' then fl_div (pos [NaN] NaN) (Fin 100)
               else fl_sub (Fin 1) (fl_div (pos [NaN] NaN) (Fin 100)))"
    by (simp add: df calculate_confidence_def diff_def iloc_last_def)
  show "calculate_confidence percentileofscore df direction = Inr NaN"
    by (simp add: df calculate_confidence_scipy)
qed

theorem confidence_short_series_witness:
  "length one_bar = 1 \<and> calculate_confidence percentileofscore one_bar ''up'' = Inr NaN
   \<and> calculate_confidence percentileofscore [] ''up'' = Inl IndexError"
  using confidence_short_series [of percentileofscore "''up''" one_bar]
  by (simp add: one_bar_def percentileofscore_def fl_sub_def)

subsection \<open>The cache\<close>

lemma detect_stop_hunt_state:
  "snd (detect_stop_hunt pos src st ticker) =
     (case get_data src ticker ''1d'' ''5m'' of
        None \<Rightarrow> st
      | Some intraday \<Rightarrow>
          (case get_data src ticker ''20d'' ''1d'' of
             None \<Rightarrow> st
           | Some data \<Rightarrow> st(ticker \<mapsto> zone_of data)))"
  by (simp add: detect_stop_hunt_def identify_liquidity_pools_def split: option.splits)

lemma detect_stop_hunt_signals:
  "fst (detect_stop_hunt pos src st ticker) = fst (detect_stop_hunt pos src st2 ticker)"
  by (simp add: detect_stop_hunt_def identify_liquidity_pools_def split: option.splits)

text \<open>
  Claim C10 says that detection leaves the zone cache unchanged. \<open>detect_stop_hunt\<close>
  calls \<open>identify_liquidity_pools\<close>, which stores the zone: after scenario B on the empty
  cache, the cache is not empty.
\<close>

theorem detect_cache_counterexample:
  "snd (detect_stop_hunt percentileofscore scenario_source Map.empty ''B'') \<noteq> Map.empty"
proof -
  have "snd (detect_stop_hunt percentileofscore scenario_source Map.empty ''B'') ''B''
          = Some (zone_of scenario_window)"
    by (simp add: detect_stop_hunt_state get_data_scenario)
  then show ?thesis by (metis option.distinct(1))
qed

text \<open>
  Claim C10, as the code has it. The signals of \<open>detect_stop_hunt\<close> depend on the source
  and the ticker only, not on the cache. The call stores the zone of the fresh daily
  window under the ticker when both downloads give data, and changes nothing otherwise;
  the entry of every other ticker stays as it was. A second call right after the first
  returns the same signals and leaves the cache as the first left it.
\<close>

theorem detect_stop_hunt_frame:
  "fst (detect_stop_hunt pos src st ticker) = fst (detect_stop_hunt pos src st2 ticker)
   \<and> snd (detect_stop_hunt pos src st ticker) =
       (case get_data src ticker ''1d'' ''5m'' of
          None \<Rightarrow> st
        | Some intraday \<Rightarrow>
            (case get_data src ticker ''20d'' ''1d'' of
               None \<Rightarrow> st
             | Some data \<Rightarrow> st(ticker \<mapsto> zone_of data)))
   \<and> (other \<noteq> ticker \<longrightarrow> snd (detect_stop_hunt pos src st ticker) other = st other)
   \<and> detect_stop_hunt pos src (snd (detect_stop_hunt pos src st ticker)) ticker
       = detect_stop_hunt pos src st ticker"
proof (intro conjI impI)
  show "fst (detect_stop_hunt pos src st ticker) = fst (detect_stop_hunt pos src st2 ticker)"
    by (rule detect_stop_hunt_signals)
  show "snd (detect_stop_hunt pos src st ticker) =
       (case get_data src ticker ''1d'' ''5m'' of
          None \<Rightarrow> st
        | Some intraday \<Rightarrow>
            (case get_data src ticker ''20d'' ''1d'' of
               None \<Rightarrow> st
             | Some data \<Rightarrow> st(ticker \<mapsto> zone_of data)))"
    by (rule detect_stop_hunt_state)
  show "detect_stop_hunt pos src (snd (detect_stop_hunt pos src st ticker)) ticker
       = detect_stop_hunt pos src st ticker"
  proof (rule prod_eqI)
    show "fst (detect_stop_hunt pos src (snd (detect_stop_hunt pos src st ticker)) ticker)
            = fst (detect_stop_hunt pos src st ticker)"
      by (rule detect_stop_hunt_signals)
    show "snd (detect_stop_hunt pos src (snd (detect_stop_hunt pos src st ticker)) ticker)
            = snd (detect_stop_hunt pos src st ticker)"
      by (simp add: detect_stop_hunt_state split: option.splits)
  qed
next
  assume "other \<noteq> ticker"
  then show "snd (detect_stop_hunt pos src st ticker) other = st other"
    by (simp add: detect_stop_hunt_state split: option.splits)
qed

theorem detect_stop_hunt_frame_witness:
  "''A'' \<noteq> ''B''
   \<and> snd (detect_stop_hunt percentileofscore scenario_source Map.empty ''B'') ''A'' = None
   \<and> snd (detect_stop_hunt percentileofscore scenario_source Map.empty ''B'') ''B''
       = Some (zone_of scenario_window)"
  using detect_stop_hunt_frame [of percentileofscore scenario_source Map.empty "''B''"
      Map.empty "''A''"]
  by (simp add: get_data_scenario)

subsection \<open>The scanner\<close>

lemma detect_stop_hunt_signals_of:
  "fst (detect_stop_hunt pos src st ticker) = Inr (signals_of pos src ticker)"
proof -
  obtain sigs where "fst (detect_stop_hunt pos src Map.empty ticker) = Inr sigs"
    using detect_stop_hunt_returns [of pos src Map.empty ticker] by blast
  then have "fst (detect_stop_hunt pos src Map.empty ticker) = Inr (signals_of pos src ticker)"
    by (simp add: signals_of_def)
  then show ?thesis
    using detect_stop_hunt_signals [of pos src st ticker Map.empty] by simp
qed

lemma scan_loop_result:
  "\<exists>st'. scan_loop pos src tickers results st =
     (Inr (\<lambda>t. if t \<in> set tickers \<and> signals_of pos src t \<noteq> []
                then Some (signals_of pos src t) else results t), st')"
proof (induction tickers arbitrary: results st)
  case Nil
  then show ?case by simp
next
  case (Cons ticker rest)
  obtain st1 where d: "detect_stop_hunt pos src st ticker = (Inr (signals_of pos src ticker), st1)"
    using detect_stop_hunt_signals_of [of pos src st ticker]
    by (cases "detect_stop_hunt pos src st ticker") simp
  define results1 where "results1 =
    (if signals_of pos src ticker \<noteq> [] then results(ticker \<mapsto> signals_of pos src ticker)
     else results)"
  from Cons.IH [of results1 st1] obtain st' where
    "scan_loop pos src rest results1 st1 =
      (Inr (\<lambda>t. if t \<in> set rest \<and> signals_of pos src t \<noteq> []
                 then Some (signals_of pos src t) else results1 t), st')"
    by blast
  moreover have "(\<lambda>t. if t \<in> set rest \<and> signals_of pos src t \<noteq> []
                 then Some (signals_of pos src t) else results1 t)
     = (\<lambda>t. if t \<in> set (ticker # rest) \<and> signals_of pos src t \<noteq> []
                then Some (signals_of pos src t) else results t)"
    by (auto simp: results1_def fun_eq_iff)
  ultimately show ?case
    by (simp add: d results1_def)
qed

lemma signals_of_no_data:
  assumes "get_data src ticker ''1d'' ''5m'' = None \<or> get_data src ticker ''20d'' ''1d'' = None"
  shows "signals_of pos src ticker = []"
  using assms
  by (auto simp: signals_of_def detect_stop_hunt_def identify_liquidity_pools_def
      split: option.splits)

lemma scenario_A_conditions:
  "\<not> bear_condition (last scenario_window) scenario_window (zone_of scenario_window)"
  "\<not> bull_condition (last scenario_window) scenario_window (zone_of scenario_window)"
proof -
  have l: "Low (last scenario_window) = 99" "High (last scenario_window) = 106"
    by (simp_all add: scenario_window_def)
  show "\<not> bear_condition (last scenario_window) scenario_window (zone_of scenario_window)"
    by (simp add: bear_condition_def zone_of_scenario_window l rnd_values)
  show "\<not> bull_condition (last scenario_window) scenario_window (zone_of scenario_window)"
    by (simp add: bull_condition_def zone_of_scenario_window l rnd_values)
qed

lemma signals_of_scenario_A: "signals_of pos scenario_source ''A'' = []"
proof -
  have ne: "scenario_window \<noteq> []" by (simp add: scenario_window_def)
  obtain cd where cd: "calculate_confidence pos scenario_window ''down'' = Inr cd"
    using calculate_confidence_returns [OF ne] by blast
  obtain cu where cu: "calculate_confidence pos scenario_window ''up'' = Inr cu"
    using calculate_confidence_returns [OF ne] by blast
  show ?thesis
    by (simp add: signals_of_def detect_stop_hunt_eq [OF get_data_scenario(3,4)]
        detect_stop_hunt_on_eq [OF ne cd cu] scenario_A_conditions)
qed

lemma signals_of_scenario_B:
  "\<exists>c. signals_of pos scenario_source ''B'' =
     [\<lparr>sig_type = ''bear_trap'', entry = 99, stop = 97.51, target = Fin 102.04, confidence = c\<rparr>]"
proof -
  obtain c where "detect_stop_hunt pos scenario_source Map.empty ''B'' =
     (Inr [\<lparr>sig_type = ''bear_trap'', entry = 99, stop = 97.51, target = Fin 102.04,
            confidence = c\<rparr>], Map.empty(''B'' \<mapsto> zone_of scenario_window))"
    using scenario_B_run [of pos Map.empty] by blast
  then show ?thesis by (simp add: signals_of_def)
qed

text \<open>
  Claim C6. For every ticker, \<open>detect_stop_hunt\<close> returns its list of signals and never
  raises, whatever the cache. \<open>scan_market\<close> returns a dictionary, and a ticker is a key
  of it exactly when it is one of the tickers scanned and its list of signals is not
  empty; the value is that list. A ticker for which a download fails or is empty is
  no key, and the scan goes on to the others. In scenario C the dictionary has the
  single key B, with one bear-trap signal.
\<close>

theorem scan_market_spec:
  "(\<forall>st0. fst (detect_stop_hunt pos src st0 ticker) = Inr (signals_of pos src ticker))
   \<and> (\<exists>results st'. scan_market pos src st tickers = (Inr results, st')
        \<and> (\<forall>t. (t \<in> dom results \<longleftrightarrow> t \<in> set tickers \<and> signals_of pos src t \<noteq> [])
              \<and> (t \<in> dom results \<longrightarrow> results t = Some (signals_of pos src t))
              \<and> (get_data src t ''1d'' ''5m'' = None \<or> get_data src t ''20d'' ''1d'' = None
                    \<longrightarrow> t \<notin> dom results)))
   \<and> (\<exists>results st' c. scan_market pos scenario_source st [''A'', ''B''] = (Inr results, st')
        \<and> dom results = {''B''}
        \<and> results ''B'' = Some [\<lparr>sig_type = ''bear_trap'', entry = 99, stop = 97.51,
                                  target = Fin 102.04, confidence = c\<rparr>])"
proof (intro conjI)
  show "\<forall>st0. fst (detect_stop_hunt pos src st0 ticker) = Inr (signals_of pos src ticker)"
    by (simp add: detect_stop_hunt_signals_of)
next
  obtain st' where r: "scan_market pos src st tickers =
     (Inr (\<lambda>t. if t \<in> set tickers \<and> signals_of pos src t \<noteq> []
                then Some (signals_of pos src t) else None), st')"
    using scan_loop_result [of pos src tickers Map.empty st] by (auto simp: scan_market_def)
  show "\<exists>results st'. scan_market pos src st tickers = (Inr results, st')
        \<and> (\<forall>t. (t \<in> dom results \<longleftrightarrow> t \<in> set tickers \<and> signals_of pos src t \<noteq> [])
              \<and> (t \<in> dom results \<longrightarrow> results t = Some (signals_of pos src t))
              \<and> (get_data src t ''1d'' ''5m'' = None \<or> get_data src t ''20d'' ''1d'' = None
                    \<longrightarrow> t \<notin> dom results))"
    apply (rule exI, rule exI, rule conjI, rule r)
    apply (auto simp: dom_def signals_of_no_data)
    done
next
  obtain st' where r: "scan_market pos scenario_source st [''A'', ''B''] =
     (Inr (\<lambda>t. if t \<in> set [''A'', ''B''] \<and> signals_of pos scenario_source t \<noteq> []
                then Some (signals_of pos scenario_source t) else None), st')"
    using scan_loop_result [of pos scenario_source "[''A'', ''B'']" Map.empty st]
    by (auto simp: scan_market_def)
  obtain c where c: "signals_of pos scenario_source ''B'' =
     [\<lparr>sig_type = ''bear_trap'', entry = 99, stop = 97.51, target = Fin 102.04, confidence = c\<rparr>]"
    using signals_of_scenario_B by blast
  show "\<exists>results st' c. scan_market pos scenario_source st [''A'', ''B''] = (Inr results, st')
        \<and> dom results = {''B''}
        \<and> results ''B'' = Some [\<lparr>sig_type = ''bear_trap'', entry = 99, stop = 97.51,
                                  target = Fin 102.04, confidence = c\<rparr>]"
    apply (rule exI, rule exI, rule exI [of _ c], rule conjI, rule r)
    apply (auto simp: dom_def signals_of_scenario_A c split: if_splits)
    done
qed

theorem scan_market_spec_witness:
  "get_data scenario_source ''X'' ''1d'' ''5m'' = None
   \<and> (\<exists>results st'.
        scan_market percentileofscore scenario_source Map.empty [''X'', ''A'', ''B'']
          = (Inr results, st')
        \<and> results ''X'' = None \<and> results ''A'' = None
        \<and> results ''B'' = Some [\<lparr>sig_type = ''bear_trap'', entry = 99, stop = 97.51,
                                  target = Fin 102.04, confidence = Fin 90\<rparr>])"
proof -
  have x: "get_data scenario_source ''X'' ''1d'' ''5m'' = None"
    by (simp add: get_data_def scenario_source_def)
  have ne: "scenario_B_intraday \<noteq> []" by (simp add: scenario_B_intraday_def)
  have l: "Close (last scenario_B_intraday) = 99" by (simp add: scenario_B_intraday_def)
  have b: "signals_of percentileofscore scenario_source ''B'' =
     [\<lparr>sig_type = ''bear_trap'', entry = 99, stop = 97.51, target = Fin 102.04,
       confidence = Fin 90\<rparr>]"
    by (simp add: signals_of_def detect_stop_hunt_eq [OF get_data_scenario(1,2)]
        detect_stop_hunt_on_eq [OF ne calculate_confidence_scipy [OF ne]
          calculate_confidence_scipy [OF ne]] scenario_B_conditions bear_signal_def l
        py_min_def round2_values [simplified] zone_of_scenario_window)
  note spec = scan_market_spec [of percentileofscore scenario_source "''X''" Map.empty
      "[''X'', ''A'', ''B'']"]
  from spec [THEN conjunct2, THEN conjunct1]
  obtain results st' where both:
    "scan_market percentileofscore scenario_source Map.empty [''X'', ''A'', ''B'']
       = (Inr results, st')
    \<and> (\<forall>t. (t \<in> dom results \<longleftrightarrow>
               t \<in> set [''X'', ''A'', ''B''] \<and> signals_of percentileofscore scenario_source t \<noteq> [])
              \<and> (t \<in> dom results \<longrightarrow>
                    results t = Some (signals_of percentileofscore scenario_source t))
              \<and> (get_data scenario_source t ''1d'' ''5m'' = None
                    \<or> get_data scenario_source t ''20d'' ''1d'' = None
                    \<longrightarrow> t \<notin> dom results))"
    by blast
  note r = both [THEN conjunct1] and every = both [THEN conjunct2]
  from every [rule_format, of "''X''"] x have rx: "results ''X'' = None"
    by (simp add: dom_def)
  from every [rule_format, of "''A''"] have ra: "results ''A'' = None"
    by (simp add: signals_of_scenario_A dom_def)
  from every [rule_format, of "''B''"] have rb: "results ''B'' = Some [\<lparr>sig_type = ''bear_trap'',
      entry = 99, stop = 97.51, target = Fin 102.04, confidence = Fin 90\<rparr>]"
    by (simp add: b)
  from r rx ra rb have "\<exists>results st'.
        scan_market percentileofscore scenario_source Map.empty [''X'', ''A'', ''B'']
          = (Inr results, st')
        \<and> results ''X'' = None \<and> results ''A'' = None
        \<and> results ''B'' = Some [\<lparr>sig_type = ''bear_trap'', entry = 99, stop = 97.51,
                                  target = Fin 102.04, confidence = Fin 90\<rparr>]"
    by (intro exI conjI)
  with x show ?thesis by (rule conjI)
qed

subsection \<open>Volume clusters\<close>

lemma length_linspace: "length (linspace a b n) = n"
  by (simp add: linspace_def Let_def)

lemma linspace_first: "linspace lo hi 20 ! 0 = lo"
  by (simp add: linspace_def Let_def rnd_0)

lemma linspace_last: "linspace lo hi 20 ! 19 = hi"
  by (simp add: linspace_def Let_def)

lemma linspace_nth:
  assumes "i < 19"
  shows "linspace lo hi 20 ! i =
           fadd (if rnd (rnd (hi - lo) / 19) = 0 then rnd (rnd (real i / 19) * rnd (hi - lo))
                 else rnd (real i * rnd (rnd (hi - lo) / 19))) lo"
  using assms by (simp add: linspace_def Let_def)

lemma monotone_nth:
  assumes "monotone_edges bins" "j < length bins" "i \<le> j"
  shows "bins ! i \<le> bins ! j"
  using assms(2,3)
proof (induction j)
  case 0
  then show ?case by simp
next
  case (Suc j)
  show ?case
  proof (cases "i = Suc j")
    case True
    then show ?thesis by simp
  next
    case False
    with Suc.prems have "i \<le> j" "j < length bins" by simp_all
    then have "bins ! i \<le> bins ! j" by (intro Suc.IH) simp_all
    moreover from assms(1) Suc.prems(1) have "bins ! j \<le> bins ! (j + 1)"
      unfolding monotone_edges_def by (metis Suc_eq_plus1 less_diff_conv not_less)
    ultimately show ?thesis by simp
  qed
qed

lemma linspace_bounds:
  assumes "monotone_edges (linspace lo hi 20)" "i < 20"
  shows "lo \<le> linspace lo hi 20 ! i" "linspace lo hi 20 ! i \<le> hi"
proof -
  have "linspace lo hi 20 ! 0 \<le> linspace lo hi 20 ! i"
    using assms by (intro monotone_nth) (simp_all add: length_linspace)
  then show "lo \<le> linspace lo hi 20 ! i" by (simp add: linspace_first)
  have "linspace lo hi 20 ! i \<le> linspace lo hi 20 ! 19"
    using assms by (intro monotone_nth) (simp_all add: length_linspace)
  then show "linspace lo hi 20 ! i \<le> hi" by (simp add: linspace_last)
qed

lemma monotone_linspace_le: "monotone_edges (linspace lo hi 20) \<Longrightarrow> lo \<le> hi"
  using linspace_bounds(1) [of lo hi 19] by (simp add: linspace_last)

lemma linspace_degenerate:
  assumes "i < 20"
  shows "linspace p p 20 ! i = p"
  using assms by (simp add: linspace_def Let_def rnd_0)

lemma monotone_linspace_degenerate: "monotone_edges (linspace p p 20)"
  by (simp add: monotone_edges_def length_linspace linspace_degenerate)

lemma monotone_linspace:
  assumes lo: "rnd lo = lo" and hi: "rnd hi = hi" and le: "lo \<le> hi"
  shows "monotone_edges (linspace lo hi 20)"
proof (cases "lo = hi")
  case True
  then show ?thesis by (simp add: monotone_linspace_degenerate)
next
  case False
  with le have lt: "0 < hi - lo" by simp
  define d where "d = rnd (hi - lo)"
  define s where "s = rnd (d / 19)"
  have d0: "0 \<le> d" unfolding d_def using lt by (intro rnd_nonneg) simp
  have "d \<noteq> 0" unfolding d_def using lt rnd_eq_0 [of "hi - lo"] by auto
  with d0 have dp: "0 < d" by simp
  have s0: "0 \<le> s" unfolding s_def using d0 by (intro rnd_nonneg) simp
  have "s \<noteq> 0" unfolding s_def using dp rnd_eq_0 [of "d / 19"] by auto
  with s0 have sp: "0 < s" by simp
  have e: "linspace lo hi 20 ! i = fadd (rnd (real i * s)) lo" if "i < 19" for i
    using that \<open>s \<noteq> 0\<close> by (simp add: linspace_nth s_def d_def)
  have y0: "0 \<le> rnd (real i * s)" for i
    using s0 by (intro rnd_nonneg) simp
  have step: "linspace lo hi 20 ! i \<le> linspace lo hi 20 ! (i + 1)" if i: "i < 19" for i
  proof (cases "i = 18")
    case False
    with i have i': "i + 1 < 19" by simp
    have "rnd (real i * s) \<le> rnd (real (i + 1) * s)"
      using s0 by (intro rnd_mono mult_right_mono) simp_all
    with lo y0 have "fadd (rnd (real i * s)) lo \<le> fadd (rnd (real (i + 1) * s)) lo"
      by (intro fadd_mono)
    with i i' show ?thesis by (simp only: e)
  next
    case True
    have "d \<le> (hi - lo) * (101 / 100)"
      unfolding d_def using lt by (intro rnd_upper) simp
    moreover have "s \<le> d / 19 * (101 / 100)"
      unfolding s_def using d0 by (intro rnd_upper) simp
    moreover have "rnd (18 * s) \<le> 18 * s * (101 / 100)"
      using s0 by (intro rnd_upper) simp
    ultimately have b: "rnd (18 * s) \<le> hi - lo" using lt by simp
    have y: "rnd (18 * s) \<noteq> 0" using sp rnd_eq_0 [of "18 * s"] by auto
    have "fadd (rnd (18 * s)) lo \<le> hi"
    proof (cases "lo = 0")
      case True
      with b show ?thesis by simp
    next
      case False
      have "rnd (rnd (18 * s) + lo) \<le> rnd hi" using b by (intro rnd_mono) simp
      with False y hi show ?thesis by (simp add: fadd_def)
    qed
    then show ?thesis using True by (simp add: e linspace_last)
  qed
  then show ?thesis
    by (simp add: monotone_edges_def length_linspace not_less)
qed

lemma weight_where_frame:
  "weight_where P (zip (map Close df) (map Volume df))
     = sum_list (map Volume (filter (\<lambda>b. P (Close b)) df))"
  by (induction df) (simp_all add: weight_where_def)

lemma weight_where_diff:
  assumes "\<And>x. P x \<Longrightarrow> Q x"
  shows "weight_where Q ps - weight_where P ps = weight_where (\<lambda>x. Q x \<and> \<not> P x) ps"
  using assms by (induction ps) (auto simp: weight_where_def)

lemma histogram_bins:
  assumes m: "monotone_edges bins" and i: "i + 1 < length bins"
  shows "\<exists>hist. histogram (map Close df) bins (map Volume df) = Some (hist, bins)
           \<and> length hist = length bins - 1
           \<and> hist ! i = bin_volume bins df i"
proof -
  let ?ps = "zip (map Close df) (map Volume df)"
  let ?cum = "\<lambda>j. if j + 1 < length bins
                    then weight_where (\<lambda>x. x < bins ! j) ?ps
                    else weight_where (\<lambda>x. x \<le> bins ! j) ?ps"
  let ?hist = "map (\<lambda>i. map ?cum [0..<length bins] ! (i + 1) - map ?cum [0..<length bins] ! i)
                 [0..<length bins - 1]"
  have h: "histogram (map Close df) bins (map Volume df) = Some (?hist, bins)"
    using m by (simp add: histogram_def Let_def)
  from m i have le: "bins ! i \<le> bins ! (i + 1)"
    unfolding monotone_edges_def by (metis less_diff_conv not_less)
  have "?hist ! i = ?cum (i + 1) - ?cum i"
    using i by simp
  also have "\<dots> = bin_volume bins df i"
  proof (cases "i + 2 < length bins")
    case True
    have "weight_where (\<lambda>x. x < bins ! (i + 1)) ?ps - weight_where (\<lambda>x. x < bins ! i) ?ps
            = weight_where (\<lambda>x. x < bins ! (i + 1) \<and> \<not> x < bins ! i) ?ps"
      using le by (intro weight_where_diff) simp
    with True i show ?thesis
      by (simp add: bin_volume_def weight_where_frame not_less conj_commute)
  next
    case False
    have "weight_where (\<lambda>x. x \<le> bins ! (i + 1)) ?ps - weight_where (\<lambda>x. x < bins ! i) ?ps
            = weight_where (\<lambda>x. x \<le> bins ! (i + 1) \<and> \<not> x < bins ! i) ?ps"
      using le by (intro weight_where_diff) simp
    with False i show ?thesis
      by (simp add: bin_volume_def weight_where_frame not_less conj_commute)
  qed
  finally have "?hist ! i = bin_volume bins df i" .
  with h show ?thesis by (intro exI [of _ ?hist]) simp
qed

lemma argsort_props:
  "length (argsort h) = length h" "set (argsort h) = {0..<length h}" "distinct (argsort h)"
  "sorted (map (\<lambda>i. h ! i) (argsort h))"
  by (simp_all add: argsort_def)

lemma last_three_19:
  assumes "length xs = 19"
  shows "last_three xs = [xs ! 16, xs ! 17, xs ! 18]"
proof -
  have "drop 16 xs = xs ! 16 # drop 17 xs"
    using assms Cons_nth_drop_Suc [of 16 xs] by simp
  also have "drop 17 xs = xs ! 17 # drop 18 xs"
    using assms Cons_nth_drop_Suc [of 17 xs] by simp
  also have "drop 18 xs = xs ! 18 # drop 19 xs"
    using assms Cons_nth_drop_Suc [of 18 xs] by simp
  finally show ?thesis using assms by (simp add: last_three_def)
qed

lemma top_three:
  assumes len: "length h = 19"
  shows "\<exists>i1 i2 i3. last_three (argsort h) = [i1, i2, i3]
           \<and> i1 < 19 \<and> i2 < 19 \<and> i3 < 19 \<and> i1 \<noteq> i2 \<and> i1 \<noteq> i3 \<and> i2 \<noteq> i3
           \<and> h ! i1 \<le> h ! i2 \<and> h ! i2 \<le> h ! i3
           \<and> (\<forall>j<19. j \<noteq> i1 \<and> j \<noteq> i2 \<and> j \<noteq> i3 \<longrightarrow> h ! j \<le> h ! i1)"
proof -
  define xs where "xs = argsort h"
  have l: "length xs = 19" and s: "set xs = {0..<19}" and d: "distinct xs"
    and srt: "sorted (map (\<lambda>i. h ! i) xs)"
    using argsort_props [of h] len by (simp_all add: xs_def)
  have key: "h ! (xs ! a) \<le> h ! (xs ! b)" if "a \<le> b" "b < 19" for a b
    using sorted_nth_mono [OF srt, of a b] that l by simp
  have inj: "xs ! a \<noteq> xs ! b" if "a < 19" "b < 19" "a \<noteq> b" for a b
    using that d l by (simp add: nth_eq_iff_index_eq)
  have mem: "xs ! a < 19" if "a < 19" for a
    using that l s nth_mem [of a xs] by auto
  have rest: "h ! j \<le> h ! (xs ! 16)"
    if "j < 19" "j \<noteq> xs ! 16" "j \<noteq> xs ! 17" "j \<noteq> xs ! 18" for j
  proof -
    from that(1) s have "j \<in> set xs" by simp
    then obtain k where k: "k < 19" "xs ! k = j"
      using l by (auto simp: in_set_conv_nth)
    with that(2-4) have "k \<noteq> 16" "k \<noteq> 17" "k \<noteq> 18" by auto
    with k(1) have "k \<le> 16" by simp
    from key [OF this] k(2) show ?thesis by simp
  qed
  show ?thesis
    apply (rule exI [of _ "xs ! 16"], rule exI [of _ "xs ! 17"], rule exI [of _ "xs ! 18"])
    apply (intro conjI)
             apply (simp add: last_three_19 [OF l] flip: xs_def)
            apply (simp_all add: mem inj key)
    apply (simp add: rest)
    done
qed

lemma volume_histogram_None:
  assumes "\<not> monotone_edges (linspace (Min (set (map Low df))) (Max (set (map High df))) 20)"
  shows "volume_histogram df = None" "find_volume_clusters df = []"
proof -
  from assms show "volume_histogram df = None"
    by (simp add: volume_histogram_def histogram_def Let_def del: set_map)
  then show "find_volume_clusters df = []"
    by (simp add: find_volume_clusters_def)
qed

lemma find_volume_clusters_top:
  fixes df :: frame
  defines "lo \<equiv> Min (set (map Low df))" and "hi \<equiv> Max (set (map High df))"
  assumes m: "monotone_edges (linspace lo hi 20)"
  shows "\<exists>hist i1 i2 i3.
           volume_histogram df = Some (hist, linspace lo hi 20)
           \<and> length hist = 19
           \<and> (\<forall>i<19. hist ! i = bin_volume (linspace lo hi 20) df i)
           \<and> find_volume_clusters df =
               [round2 (linspace lo hi 20 ! i1), round2 (linspace lo hi 20 ! i2),
                round2 (linspace lo hi 20 ! i3)]
           \<and> i1 < 19 \<and> i2 < 19 \<and> i3 < 19 \<and> i1 \<noteq> i2 \<and> i1 \<noteq> i3 \<and> i2 \<noteq> i3
           \<and> hist ! i1 \<le> hist ! i2 \<and> hist ! i2 \<le> hist ! i3
           \<and> (\<forall>j<19. j \<noteq> i1 \<and> j \<noteq> i2 \<and> j \<noteq> i3 \<longrightarrow> hist ! j \<le> hist ! i1)"
proof -
  let ?e = "linspace lo hi 20"
  from histogram_bins [OF m, of 0 df] obtain hist where
    h: "histogram (map Close df) ?e (map Volume df) = Some (hist, ?e)" and l: "length hist = 19"
    by (auto simp: length_linspace)
  have b: "hist ! i = bin_volume ?e df i" if "i < 19" for i
    using histogram_bins [OF m, of i df] that h by (auto simp: length_linspace)
  have vh: "volume_histogram df = Some (hist, ?e)"
    using h by (simp add: volume_histogram_def lo_def hi_def Let_def del: set_map)
  from top_three [OF l] obtain i1 i2 i3 where
    t: "last_three (argsort hist) = [i1, i2, i3]"
    and r: "i1 < 19 \<and> i2 < 19 \<and> i3 < 19 \<and> i1 \<noteq> i2 \<and> i1 \<noteq> i3 \<and> i2 \<noteq> i3
           \<and> hist ! i1 \<le> hist ! i2 \<and> hist ! i2 \<le> hist ! i3
           \<and> (\<forall>j<19. j \<noteq> i1 \<and> j \<noteq> i2 \<and> j \<noteq> i3 \<longrightarrow> hist ! j \<le> hist ! i1)"
    by blast
  have f: "find_volume_clusters df = [round2 (?e ! i1), round2 (?e ! i2), round2 (?e ! i3)]"
    by (simp add: find_volume_clusters_def vh t)
  from vh l b f r show ?thesis by blast
qed

lemma find_volume_clusters_last:
  fixes df :: frame
  defines "lo \<equiv> Min (set (map Low df))" and "hi \<equiv> Max (set (map High df))"
  assumes m: "monotone_edges (linspace lo hi 20)" and k: "k < 19"
      and top: "\<And>j. j < 19 \<Longrightarrow> j \<noteq> k \<Longrightarrow>
                 bin_volume (linspace lo hi 20) df j < bin_volume (linspace lo hi 20) df k"
  shows "last (find_volume_clusters df) = round2 (linspace lo hi 20 ! k)"
proof -
  let ?e = "linspace lo hi 20"
  from find_volume_clusters_top [of df] m obtain hist i1 i2 i3 where
    b: "\<forall>i<19. hist ! i = bin_volume ?e df i"
    and f: "find_volume_clusters df = [round2 (?e ! i1), round2 (?e ! i2), round2 (?e ! i3)]"
    and i: "i1 < 19" "i2 < 19" "i3 < 19" "i1 \<noteq> i2" "i1 \<noteq> i3" "i2 \<noteq> i3"
    and o: "hist ! i1 \<le> hist ! i2" "hist ! i2 \<le> hist ! i3"
    and r: "\<forall>j<19. j \<noteq> i1 \<and> j \<noteq> i2 \<and> j \<noteq> i3 \<longrightarrow> hist ! j \<le> hist ! i1"
    unfolding lo_def hi_def by blast
  have "i3 = k"
  proof (rule ccontr)
    assume n: "i3 \<noteq> k"
    with top [of i3] i(3) b k have lt: "hist ! i3 < hist ! k" by simp
    consider "k = i1" | "k = i2" | "k \<noteq> i1 \<and> k \<noteq> i2 \<and> k \<noteq> i3"
      using n by blast
    then show False
    proof cases
      case 1 with o lt show False by simp
    next
      case 2 with o lt show False by simp
    next
      case 3
      with r k have "hist ! k \<le> hist ! i1" by blast
      with o lt show False by simp
    qed
  qed
  with f show ?thesis by simp
qed

lemma find_volume_clusters_degenerate:
  assumes "Min (set (map Low df)) = p" "Max (set (map High df)) = p"
  shows "find_volume_clusters df = [round2 p, round2 p, round2 p]"
proof -
  from find_volume_clusters_top [of df] assms monotone_linspace_degenerate [of p]
  obtain i1 i2 i3 where
    f: "find_volume_clusters df =
          [round2 (linspace p p 20 ! i1), round2 (linspace p p 20 ! i2),
           round2 (linspace p p 20 ! i3)]"
    and i: "i1 < 19" "i2 < 19" "i3 < 19"
    by auto
  from i show ?thesis by (simp add: f linspace_degenerate)
qed



lemma identify_liquidity_pools_eq:
  "get_data src ticker ''20d'' ''1d'' = Some df \<Longrightarrow>
     identify_liquidity_pools src st ticker = (Some (zone_of df), st(ticker \<mapsto> zone_of df))"
  by (simp add: identify_liquidity_pools_def)

lemma tall_bar_levels:
  "Min (set (map Low tall_bar)) = 0" "Max (set (map High tall_bar)) = 19"
  by (simp_all add: tall_bar_def)

lemma rnd_1: "rnd 1 = 1"
  using rnd_nat [of 1] by simp

lemma tall_bar_edges:
  assumes "i < 20"
  shows "linspace 0 19 20 ! i = real i"
proof (cases "i = 19")
  case True
  then show ?thesis by (simp add: linspace_last)
next
  case False
  with assms have i: "i < 19" by simp
  then have "i < 2 ^ 53" by simp
  then have "rnd (real i) = real i" by (rule rnd_nat)
  with i show ?thesis
    by (simp add: linspace_nth rnd_numeral rnd_1)
qed

lemma tall_bar_monotone:
  "monotone_edges (linspace (Min (set (map Low tall_bar))) (Max (set (map High tall_bar))) 20)"
  unfolding tall_bar_levels
  by (simp add: monotone_edges_def length_linspace tall_bar_edges)

lemma tall_bar_last: "last (find_volume_clusters tall_bar) = 18"
proof -
  have "last (find_volume_clusters tall_bar)
          = round2 (linspace (Min (set (map Low tall_bar))) (Max (set (map High tall_bar))) 20 ! 18)"
  proof (rule find_volume_clusters_last)
    show "monotone_edges (linspace (Min (set (map Low tall_bar)))
            (Max (set (map High tall_bar))) 20)"
      by (rule tall_bar_monotone)
    show "(18::nat) < 19" by simp
    fix j :: nat assume j: "j < 19" "j \<noteq> 18"
    then have "real j + 1 \<le> 18" by linarith
    with j show "bin_volume (linspace (Min (set (map Low tall_bar)))
                    (Max (set (map High tall_bar))) 20) tall_bar j
            < bin_volume (linspace (Min (set (map Low tall_bar)))
                    (Max (set (map High tall_bar))) 20) tall_bar 18"
      unfolding tall_bar_levels
      by (simp add: bin_volume_def length_linspace tall_bar_edges tall_bar_def)
  qed
  also have "\<dots> = 18"
    unfolding tall_bar_levels
    by (simp add: tall_bar_edges round2_def rnd_numeral)
  finally show ?thesis .
qed

text \<open>
  Claim C2 says 20 bins and the upper edge of each selected bin. \<open>np.linspace\<close> with 20
  points gives 20 edges, so 19 bins, and indexing the edges with a bin's number gives
  the bin's lower edge. On one bar with low 0, high 19 and close 19 the edges are the
  integers from 0 to 19 and the only volume lies in the last bin, from 18 to 19; the last
  level reported is 18, below the close.
\<close>

theorem volume_clusters_counterexample:
  "map_option (\<lambda>(hist, edges). (length hist, length edges)) (volume_histogram tall_bar)
     = Some (19, 20)
   \<and> Close (last tall_bar) = 19
   \<and> last (find_volume_clusters tall_bar) = 18"
proof -
  from find_volume_clusters_top [of tall_bar] tall_bar_monotone obtain hist where
    "volume_histogram tall_bar = Some (hist, linspace 0 19 20)" "length hist = 19"
    unfolding tall_bar_levels by auto
  then show ?thesis
    by (simp add: length_linspace tall_bar_last) (simp add: tall_bar_def)
qed

lemma monotone_edges_linspace:
  "monotone_edges (linspace lo hi 20)
     \<longleftrightarrow> (\<forall>i<19. linspace lo hi 20 ! i \<le> linspace lo hi 20 ! (i + 1))"
  by (simp add: monotone_edges_def length_linspace not_less)

text \<open>
  Claim C2, as the code has it. The clustering places 20 edges from the lowest low to
  the highest high, computed as \<open>np.linspace\<close> computes them in doubles: the first is the
  lowest low, the last the highest high, and the one with index \<open>i\<close> between them is the
  low plus \<open>i\<close> times the step. They bound 19 bins. When the lowest low and the highest
  high are doubles and the low is not above the high, no edge is above its successor.
  When an edge is above its successor, as when the lowest low is above the highest high,
  the list of levels is empty. Otherwise the count of a bin is the volume of the bars
  whose close is at or above the bin's lower edge and below its upper edge, or up to the
  upper edge in the last bin; three different bins are selected, no other bin has more
  volume than any of them, and their lower edges, rounded to two decimals the way NumPy
  does, are reported in ascending order of volume. When one bin has more volume than
  every other, the last level reported is its lower edge.
\<close>

theorem volume_clusters_spec:
  fixes df :: frame
  defines "lo \<equiv> Min (set (map Low df))" and "hi \<equiv> Max (set (map High df))"
  defines "edges \<equiv> linspace lo hi 20"
  assumes ne: "df \<noteq> []"
  shows "length edges = 20 \<and> edges ! 0 = lo \<and> edges ! 19 = hi
       \<and> (\<forall>i<19. edges ! i =
             fadd (if rnd (rnd (hi - lo) / 19) = 0
                   then rnd (rnd (real i / 19) * rnd (hi - lo))
                   else rnd (real i * rnd (rnd (hi - lo) / 19))) lo)
       \<and> (rnd lo = lo \<and> rnd hi = hi \<and> lo \<le> hi \<longrightarrow> (\<forall>i<19. edges ! i \<le> edges ! (i + 1)))
       \<and> (hi < lo \<longrightarrow> find_volume_clusters df = [])
       \<and> ((\<exists>i<19. edges ! (i + 1) < edges ! i) \<longrightarrow> find_volume_clusters df = [])
       \<and> ((\<forall>i<19. edges ! i \<le> edges ! (i + 1)) \<longrightarrow>
            (\<exists>hist i1 i2 i3.
               volume_histogram df = Some (hist, edges) \<and> length hist = 19
               \<and> (\<forall>i<19. hist ! i =
                     sum_list (map Volume (filter (\<lambda>b. edges ! i \<le> Close b \<and>
                       (if i < 18 then Close b < edges ! (i + 1)
                        else Close b \<le> edges ! (i + 1))) df)))
               \<and> find_volume_clusters df =
                   [of_int (rint (rnd (edges ! i1 * 100))) / 100,
                    of_int (rint (rnd (edges ! i2 * 100))) / 100,
                    of_int (rint (rnd (edges ! i3 * 100))) / 100]
               \<and> i1 < 19 \<and> i2 < 19 \<and> i3 < 19 \<and> i1 \<noteq> i2 \<and> i1 \<noteq> i3 \<and> i2 \<noteq> i3
               \<and> hist ! i1 \<le> hist ! i2 \<and> hist ! i2 \<le> hist ! i3
               \<and> (\<forall>j<19. j \<noteq> i1 \<and> j \<noteq> i2 \<and> j \<noteq> i3 \<longrightarrow> hist ! j \<le> hist ! i1)))
       \<and> ((\<forall>i<19. edges ! i \<le> edges ! (i + 1)) \<and> k < 19
            \<and> (\<forall>j<19. j \<noteq> k \<longrightarrow> bin_volume edges df j < bin_volume edges df k)
            \<longrightarrow> last (find_volume_clusters df) = of_int (rint (rnd (edges ! k * 100))) / 100)"
proof (intro conjI impI)
  show "length edges = 20" by (simp add: edges_def length_linspace)
  show "edges ! 0 = lo" by (simp add: edges_def linspace_first)
  show "edges ! 19 = hi" by (simp add: edges_def linspace_last)
  show "\<forall>i<19. edges ! i =
             fadd (if rnd (rnd (hi - lo) / 19) = 0
                   then rnd (rnd (real i / 19) * rnd (hi - lo))
                   else rnd (real i * rnd (rnd (hi - lo) / 19))) lo"
    unfolding edges_def by (intro allI impI) (rule linspace_nth)
next
  assume "rnd lo = lo \<and> rnd hi = hi \<and> lo \<le> hi"
  then have "monotone_edges (linspace lo hi 20)"
    by (intro monotone_linspace) simp_all
  then show "\<forall>i<19. edges ! i \<le> edges ! (i + 1)"
    unfolding monotone_edges_linspace edges_def .
next
  assume "hi < lo"
  then have "\<not> monotone_edges (linspace lo hi 20)"
    using monotone_linspace_le [of lo hi] by auto
  then show "find_volume_clusters df = []"
    unfolding lo_def hi_def by (rule volume_histogram_None(2))
next
  assume "\<exists>i<19. edges ! (i + 1) < edges ! i"
  then have "\<not> monotone_edges (linspace lo hi 20)"
    unfolding monotone_edges_linspace edges_def by (auto simp: not_le)
  then show "find_volume_clusters df = []"
    unfolding lo_def hi_def by (rule volume_histogram_None(2))
next
  assume "\<forall>i<19. edges ! i \<le> edges ! (i + 1)"
  then have m: "monotone_edges (linspace lo hi 20)"
    unfolding monotone_edges_linspace edges_def .
  from find_volume_clusters_top [of df] m obtain hist i1 i2 i3 where
    vh: "volume_histogram df = Some (hist, edges)" and l: "length hist = 19"
    and b: "\<forall>i<19. hist ! i = bin_volume edges df i"
    and f: "find_volume_clusters df =
              [round2 (edges ! i1), round2 (edges ! i2), round2 (edges ! i3)]"
    and r: "i1 < 19 \<and> i2 < 19 \<and> i3 < 19 \<and> i1 \<noteq> i2 \<and> i1 \<noteq> i3 \<and> i2 \<noteq> i3
           \<and> hist ! i1 \<le> hist ! i2 \<and> hist ! i2 \<le> hist ! i3
           \<and> (\<forall>j<19. j \<noteq> i1 \<and> j \<noteq> i2 \<and> j \<noteq> i3 \<longrightarrow> hist ! j \<le> hist ! i1)"
    unfolding lo_def hi_def edges_def by blast
  have b': "\<forall>i<19. hist ! i =
                     sum_list (map Volume (filter (\<lambda>b. edges ! i \<le> Close b \<and>
                       (if i < 18 then Close b < edges ! (i + 1)
                        else Close b \<le> edges ! (i + 1))) df))"
  proof (intro allI impI)
    fix i :: nat assume i: "i < 19"
    have "(i + 2 < 20) = (i < 18)" by linarith
    with b i show "hist ! i =
                     sum_list (map Volume (filter (\<lambda>b. edges ! i \<le> Close b \<and>
                       (if i < 18 then Close b < edges ! (i + 1)
                        else Close b \<le> edges ! (i + 1))) df))"
      by (simp add: bin_volume_def edges_def length_linspace)
  qed
  have f': "find_volume_clusters df =
                   [of_int (rint (rnd (edges ! i1 * 100))) / 100,
                    of_int (rint (rnd (edges ! i2 * 100))) / 100,
                    of_int (rint (rnd (edges ! i3 * 100))) / 100]"
    using f by (simp add: round2_def)
  from vh l b' f' r
  show "\<exists>hist i1 i2 i3.
               volume_histogram df = Some (hist, edges) \<and> length hist = 19
               \<and> (\<forall>i<19. hist ! i =
                     sum_list (map Volume (filter (\<lambda>b. edges ! i \<le> Close b \<and>
                       (if i < 18 then Close b < edges ! (i + 1)
                        else Close b \<le> edges ! (i + 1))) df)))
               \<and> find_volume_clusters df =
                   [of_int (rint (rnd (edges ! i1 * 100))) / 100,
                    of_int (rint (rnd (edges ! i2 * 100))) / 100,
                    of_int (rint (rnd (edges ! i3 * 100))) / 100]
               \<and> i1 < 19 \<and> i2 < 19 \<and> i3 < 19 \<and> i1 \<noteq> i2 \<and> i1 \<noteq> i3 \<and> i2 \<noteq> i3
               \<and> hist ! i1 \<le> hist ! i2 \<and> hist ! i2 \<le> hist ! i3
               \<and> (\<forall>j<19. j \<noteq> i1 \<and> j \<noteq> i2 \<and> j \<noteq> i3 \<longrightarrow> hist ! j \<le> hist ! i1)"
    apply -
    apply (rule exI [of _ hist], rule exI [of _ i1], rule exI [of _ i2], rule exI [of _ i3])
    apply (elim conjE)
    apply (intro conjI)
                apply assumption+
    done
next
  assume a: "(\<forall>i<19. edges ! i \<le> edges ! (i + 1)) \<and> k < 19
            \<and> (\<forall>j<19. j \<noteq> k \<longrightarrow> bin_volume edges df j < bin_volume edges df k)"
  then have m: "monotone_edges (linspace lo hi 20)"
    unfolding monotone_edges_linspace edges_def by blast
  from a have "last (find_volume_clusters df) = round2 (linspace lo hi 20 ! k)"
    unfolding lo_def hi_def edges_def
    by (intro find_volume_clusters_last m [unfolded lo_def hi_def]) simp_all
  then show "last (find_volume_clusters df) = of_int (rint (rnd (edges ! k * 100))) / 100"
    by (simp add: round2_def edges_def)
qed

theorem volume_clusters_spec_witness:
  "tall_bar \<noteq> []
   \<and> rnd (Min (set (map Low tall_bar))) = Min (set (map Low tall_bar))
   \<and> rnd (Max (set (map High tall_bar))) = Max (set (map High tall_bar))
   \<and> Min (set (map Low tall_bar)) \<le> Max (set (map High tall_bar))
   \<and> (\<exists>hist edges. volume_histogram tall_bar = Some (hist, edges)
         \<and> length edges = 20 \<and> length hist = 19 \<and> edges ! 18 = 18 \<and> edges ! 19 = 19
         \<and> hist ! 18 = 10 \<and> hist ! 17 = 0)
   \<and> length (find_volume_clusters tall_bar) = 3"
proof -
  have ne: "tall_bar \<noteq> []" by (simp add: tall_bar_def)
  have d: "rnd (0::real) = 0 \<and> rnd (19::real) = 19 \<and> (0::real) \<le> 19"
    by (simp add: rnd_0 rnd_numeral)
  note spec = volume_clusters_spec [OF ne, of 0, unfolded tall_bar_levels]
  from spec have "rnd (0::real) = 0 \<and> rnd (19::real) = 19 \<and> (0::real) \<le> 19
      \<longrightarrow> (\<forall>i<19. linspace 0 19 20 ! i \<le> linspace 0 19 20 ! (i + 1))"
    by (elim conjE)
  from this d have le: "\<forall>i<19. linspace 0 19 20 ! i \<le> linspace 0 19 20 ! (i + 1)"
    by (rule mp)
  from spec le have "\<exists>hist i1 i2 i3.
               volume_histogram tall_bar = Some (hist, linspace 0 19 20) \<and> length hist = 19
               \<and> (\<forall>i<19. hist ! i =
                     sum_list (map Volume (filter (\<lambda>b. linspace 0 19 20 ! i \<le> Close b \<and>
                       (if i < 18 then Close b < linspace 0 19 20 ! (i + 1)
                        else Close b \<le> linspace 0 19 20 ! (i + 1))) tall_bar)))
               \<and> find_volume_clusters tall_bar =
                   [of_int (rint (rnd (linspace 0 19 20 ! i1 * 100))) / 100,
                    of_int (rint (rnd (linspace 0 19 20 ! i2 * 100))) / 100,
                    of_int (rint (rnd (linspace 0 19 20 ! i3 * 100))) / 100]
               \<and> i1 < 19 \<and> i2 < 19 \<and> i3 < 19 \<and> i1 \<noteq> i2 \<and> i1 \<noteq> i3 \<and> i2 \<noteq> i3
               \<and> hist ! i1 \<le> hist ! i2 \<and> hist ! i2 \<le> hist ! i3
               \<and> (\<forall>j<19. j \<noteq> i1 \<and> j \<noteq> i2 \<and> j \<noteq> i3 \<longrightarrow> hist ! j \<le> hist ! i1)"
    by (elim conjE) (erule mp)
  then have "(\<exists>hist edges. volume_histogram tall_bar = Some (hist, edges)
         \<and> length edges = 20 \<and> length hist = 19 \<and> edges ! 18 = 18 \<and> edges ! 19 = 19
         \<and> hist ! 18 = 10 \<and> hist ! 17 = 0)
         \<and> length (find_volume_clusters tall_bar) = 3"
  proof (elim exE conjE)
    fix hist :: "real list" and i1 i2 i3 :: nat
    assume vh: "volume_histogram tall_bar = Some (hist, linspace 0 19 20)"
      and l: "length hist = 19"
      and b: "\<forall>i<19. hist ! i =
                     sum_list (map Volume (filter (\<lambda>b. linspace 0 19 20 ! i \<le> Close b \<and>
                       (if i < 18 then Close b < linspace 0 19 20 ! (i + 1)
                        else Close b \<le> linspace 0 19 20 ! (i + 1))) tall_bar))"
      and f: "find_volume_clusters tall_bar =
                   [of_int (rint (rnd (linspace 0 19 20 ! i1 * 100))) / 100,
                    of_int (rint (rnd (linspace 0 19 20 ! i2 * 100))) / 100,
                    of_int (rint (rnd (linspace 0 19 20 ! i3 * 100))) / 100]"
    have e: "linspace 0 19 20 ! 17 = 17" "linspace 0 19 20 ! 18 = 18" "linspace 0 19 20 ! 19 = 19"
      by (simp_all add: tall_bar_edges)
    from b have h: "hist ! 18 = 10" "hist ! 17 = 0"
      by (simp_all add: e tall_bar_def)
    have "length (linspace 0 19 20) = 20" by (rule length_linspace)
    with vh l e h have "\<exists>hist edges. volume_histogram tall_bar = Some (hist, edges)
         \<and> length edges = 20 \<and> length hist = 19 \<and> edges ! 18 = 18 \<and> edges ! 19 = 19
         \<and> hist ! 18 = 10 \<and> hist ! 17 = 0"
      by (intro exI conjI)
    moreover have "length (find_volume_clusters tall_bar) = 3" by (simp add: f)
    ultimately show ?thesis by (rule conjI)
  qed
  with ne d show ?thesis
    unfolding tall_bar_levels by (intro conjI) (elim conjE, assumption)+
qed

lemma flat_window_levels:
  "Min (set (map Low flat_window)) = 50" "Max (set (map High flat_window)) = 50"
  by (simp_all add: flat_window_def)

lemma round2_50: "round2 50 = 50"
  by (simp add: round2_def rnd_numeral)

text \<open>
  Claim C4 says that a window with \<open>recent_low = recent_high\<close> gives no cluster levels.
  NumPy accepts equal edges, so nothing is raised and the \<open>except\<close> is not reached: on
  two bars at 50 the levels are 50, three times.
\<close>

theorem degenerate_range_counterexample:
  "Min (set (map Low flat_window)) = Max (set (map High flat_window))
   \<and> high_volume_nodes (zone_of flat_window) = [50, 50, 50]"
proof -
  have "find_volume_clusters flat_window = [round2 50, round2 50, round2 50]"
    using flat_window_levels by (rule find_volume_clusters_degenerate)
  then show ?thesis
    unfolding flat_window_levels by (simp add: zone_of_def round2_50)
qed

text \<open>
  Claim C4, as the code has it. On a non-empty window with \<open>recent_low = recent_high\<close>
  the zone's cluster levels are that price rounded to two decimals, three times; so they
  are when every bar has \<open>High = Low = Close = p\<close>. The levels are the empty list when the
  highest high is below the lowest low. \<open>identify_liquidity_pools\<close> does not fail: given
  the window, it returns the zone and stores it.
\<close>

theorem degenerate_range_clusters:
  assumes "df \<noteq> []"
  shows "(Min (set (map Low df)) = Max (set (map High df)) \<longrightarrow>
            high_volume_nodes (zone_of df) =
              [round2 (recent_low (zone_of df)), round2 (recent_low (zone_of df)),
               round2 (recent_low (zone_of df))])
       \<and> ((\<forall>b\<in>set df. High b = p \<and> Low b = p \<and> Close b = p) \<longrightarrow>
            high_volume_nodes (zone_of df) = [round2 p, round2 p, round2 p])
       \<and> (Max (set (map High df)) < Min (set (map Low df)) \<longrightarrow>
            high_volume_nodes (zone_of df) = [])
       \<and> (get_data src ticker ''20d'' ''1d'' = Some df \<longrightarrow>
            identify_liquidity_pools src st ticker
              = (Some (zone_of df), st(ticker \<mapsto> zone_of df)))"
proof (intro conjI impI)
  assume "Min (set (map Low df)) = Max (set (map High df))"
  then have "find_volume_clusters df =
      [round2 (Min (set (map Low df))), round2 (Min (set (map Low df))),
       round2 (Min (set (map Low df)))]"
    by (intro find_volume_clusters_degenerate) simp_all
  then show "high_volume_nodes (zone_of df) =
              [round2 (recent_low (zone_of df)), round2 (recent_low (zone_of df)),
               round2 (recent_low (zone_of df))]"
    by (simp add: zone_of_def del: set_map)
next
  assume a: "\<forall>b\<in>set df. High b = p \<and> Low b = p \<and> Close b = p"
  from assms obtain b0 where b0: "b0 \<in> set df" by (cases df) auto
  have "Min (set (map Low df)) = p"
  proof (rule Min_eqI)
    show "finite (set (map Low df))" by simp
    show "p \<le> y" if "y \<in> set (map Low df)" for y using that a by auto
    from b0 a have "Low b0 = p" by blast
    with b0 show "p \<in> set (map Low df)" by force
  qed
  moreover have "Max (set (map High df)) = p"
  proof (rule Max_eqI)
    show "finite (set (map High df))" by simp
    show "y \<le> p" if "y \<in> set (map High df)" for y using that a by auto
    from b0 a have "High b0 = p" by blast
    with b0 show "p \<in> set (map High df)" by force
  qed
  ultimately have "Min (set (map Low df)) = p" "Max (set (map High df)) = p"
    by simp_all
  then have "find_volume_clusters df = [round2 p, round2 p, round2 p]"
    by (rule find_volume_clusters_degenerate)
  then show "high_volume_nodes (zone_of df) = [round2 p, round2 p, round2 p]"
    by (simp add: zone_of_def)
next
  assume "Max (set (map High df)) < Min (set (map Low df))"
  then have "\<not> monotone_edges (linspace (Min (set (map Low df))) (Max (set (map High df))) 20)"
    using monotone_linspace_le [of "Min (set (map Low df))" "Max (set (map High df))"]
    by linarith
  then have "find_volume_clusters df = []"
    by (rule volume_histogram_None(2))
  then show "high_volume_nodes (zone_of df) = []"
    by (simp add: zone_of_def)
next
  assume "get_data src ticker ''20d'' ''1d'' = Some df"
  then show "identify_liquidity_pools src st ticker
              = (Some (zone_of df), st(ticker \<mapsto> zone_of df))"
    by (rule identify_liquidity_pools_eq)
qed

theorem degenerate_range_clusters_witness:
  "flat_window \<noteq> []
   \<and> list_all (\<lambda>b. High b = 50 \<and> Low b = 50 \<and> Close b = 50) flat_window
   \<and> get_data flat_source ''F'' ''20d'' ''1d'' = Some flat_window
   \<and> map_option high_volume_nodes (fst (identify_liquidity_pools flat_source Map.empty ''F''))
       = Some [50, 50, 50]"
proof -
  have ne: "flat_window \<noteq> []" by (simp add: flat_window_def)
  have a: "\<forall>b\<in>set flat_window. High b = 50 \<and> Low b = 50 \<and> Close b = 50"
    by (simp add: flat_window_def)
  have g: "get_data flat_source ''F'' ''20d'' ''1d'' = Some flat_window"
    by (simp add: get_data_def flat_source_def flat_window_def)
  note spec = degenerate_range_clusters [OF ne, of 50 flat_source "''F''" Map.empty]
  from spec a have n: "high_volume_nodes (zone_of flat_window) = [round2 50, round2 50, round2 50]"
    by (elim conjE) (erule mp)
  from spec g have i: "identify_liquidity_pools flat_source Map.empty ''F''
              = (Some (zone_of flat_window), Map.empty(''F'' \<mapsto> zone_of flat_window))"
    by (elim conjE) (erule mp)
  have l: "list_all (\<lambda>b. High b = 50 \<and> Low b = 50 \<and> Close b = 50) flat_window"
    by (simp add: flat_window_def)
  have "map_option high_volume_nodes (fst (identify_liquidity_pools flat_source Map.empty ''F''))
       = Some [50, 50, 50]"
    by (simp add: i n round2_50)
  with ne l g show ?thesis by (intro conjI)
qed







text \<open>
  The rounding multiplies by 100 in doubles before it takes the nearest integer, so a
  level can be more than half a cent away from its edge: on a bar at the double nearest
  to 1.055, which is below 1.055, the product is 105.5 and the levels are 1.06.
\<close>

lemma half_cent_levels:
  "high_volume_nodes (zone_of half_cent_bar) = [1.06, 1.06, 1.06]
   \<and> recent_high (zone_of half_cent_bar) + 1 / 200 < 1.06"
proof -
  have "find_volume_clusters half_cent_bar
          = [round2 (rnd 1.055), round2 (rnd 1.055), round2 (rnd 1.055)]"
    by (rule find_volume_clusters_degenerate) (simp_all add: half_cent_bar_def)
  moreover have "round2 (rnd 1.055) = 1.06"
    by (simp add: round2_def rnd_1_055 scaled_1_055 rint_1_055)
  moreover have "recent_high (zone_of half_cent_bar) = rnd 1.055"
    by (simp add: zone_of_def half_cent_bar_def)
  ultimately show ?thesis
    by (simp add: zone_of_def rnd_1_055)
qed



end
